theory Spec2Isabelle
  imports Main "HOL-Library.Word" "HOL-Library.Multiset"
begin

section \<open>Values shared by the tracker and the scraper\<close>

text \<open>
  The development follows the revision of the tracker in which
  \<open>VersionsInfo.LatestVersions\<close> is a map from branch name to version and the
  tracker owns the mutex \<open>mtx\<close>: the first part of \<open>tracker/osx_scraper.go\<close>
  together with the \<open>tracker.go\<close> that declares \<open>mtx\<close> and \<open>ReadVersions\<close>.
\<close>

subsection \<open>Go errors and panics\<close>

datatype error =
    Error string  \<comment> \<open>a Go \<open>error\<close> value, with its message\<close>
  | Panic string  \<comment> \<open>a run-time panic\<close>

text \<open>A \<open>time.Time\<close>, counted from Go's zero time, which is \<open>time.Time{}\<close>.\<close>

type_synonym time = int

definition zeroTime :: time where
  "zeroTime = 0"

subsection \<open>Versions\<close>

text \<open>
  Modelled from the spec: the type \<open>version.Version\<close> and its comparison come from
  the library \<open>hashicorp/go-version\<close>, which is not part of the sources. The spec
  describes a semantic version as an ordered triple (major, minor, patch) with a
  total order whose comparison is numeric per component.
\<close>

datatype Version = Version (Major: nat) (Minor: nat) (Patch: nat)

fun Compare :: "Version \<Rightarrow> Version \<Rightarrow> int" where
  "Compare (Version a b c) (Version a' b' c') =
     (if a < a' then - 1 else if a' < a then 1
      else if b < b' then - 1 else if b' < b then 1
      else if c < c' then - 1 else if c' < c then 1
      else 0)"

definition GreaterThan :: "Version \<Rightarrow> Version \<Rightarrow> bool" where
  "GreaterThan v other = (0 < Compare v other)"

definition LessThan :: "Version \<Rightarrow> Version \<Rightarrow> bool" where
  "LessThan v other = (Compare v other < 0)"

instantiation Version :: linorder
begin

definition less_eq_Version :: "Version \<Rightarrow> Version \<Rightarrow> bool" where
  "less_eq_Version v other = (Compare v other \<le> 0)"

definition less_Version :: "Version \<Rightarrow> Version \<Rightarrow> bool" where
  "less_Version v other = (Compare v other < 0)"

instance
proof
  fix x y z :: Version
  show "(x < y) = (x \<le> y \<and> \<not> y \<le> x)"
    by (cases x; cases y) (simp add: less_eq_Version_def less_Version_def)
  show "x \<le> x"
    by (cases x) (simp add: less_eq_Version_def)
  show "x \<le> y \<Longrightarrow> y \<le> z \<Longrightarrow> x \<le> z"
    by (cases x; cases y; cases z)
       (simp add: less_eq_Version_def split: if_splits)
  show "x \<le> y \<Longrightarrow> y \<le> x \<Longrightarrow> x = y"
    by (cases x; cases y) (simp add: less_eq_Version_def split: if_splits)
  show "x \<le> y \<or> y \<le> x"
    by (cases x; cases y) (simp add: less_eq_Version_def)
qed

end

text \<open>The static versions parsed by \<open>init\<close> from "10.11.0", "10.12.0" and "10.13.0".\<close>

definition elCapitanMajor :: Version where
  "elCapitanMajor = Version 10 11 0"

definition sierraMajor :: Version where
  "sierraMajor = Version 10 12 0"

definition highSierraMajor :: Version where
  "highSierraMajor = Version 10 13 0"

definition versionNameElCapitan :: string where
  "versionNameElCapitan = ''ElCapitan''"

definition versionNameSierra :: string where
  "versionNameSierra = ''Sierra''"

definition versionNameHighSierra :: string where
  "versionNameHighSierra = ''HighSierra''"

definition OSTypeMac :: string where
  "OSTypeMac = ''macOS''"

definition OSTypeWindows :: string where
  "OSTypeWindows = ''windows''"

definition OSTypeLinux :: string where
  "OSTypeLinux = ''linux''"

definition catalogURL :: string where
  "catalogURL = ''https://swscan.apple.com/content/catalogs/others/''"

definition MacCatalogs :: "(string \<times> string) list" where
  "MacCatalogs =
     [(''10.13'',
       ''index-10.13-10.12-10.11-10.10-10.9-mountainlion-lion-snowleopard-leopard.merged-1.sucatalog'')]"

subsection \<open>The tracker's state\<close>

text \<open>
  \<open>LatestVersions\<close> is a Go map; a nil map reads like an empty one, and
  \<open>updateOSVersionsMap\<close> replaces a nil map by an empty one before anything is
  stored, so both are the empty map here.
\<close>

record VersionsInfo =
  LatestVersions :: "string \<rightharpoonup> Version"
  LastModified :: time

record Tracker =
  interval :: int
  osVersionsMap :: "string \<rightharpoonup> VersionsInfo"

definition MakeTracker :: "int \<Rightarrow> Tracker" where
  "MakeTracker i =
     \<lparr>interval = i,
      osVersionsMap =
        [OSTypeMac \<mapsto> \<lparr>LatestVersions = Map.empty, LastModified = zeroTime\<rparr>,
         OSTypeWindows \<mapsto> \<lparr>LatestVersions = Map.empty, LastModified = zeroTime\<rparr>,
         OSTypeLinux \<mapsto> \<lparr>LatestVersions = Map.empty, LastModified = zeroTime\<rparr>]\<rparr>"

definition ReadVersions :: "Tracker \<Rightarrow> string \<Rightarrow> VersionsInfo option" where
  "ReadVersions t os = osVersionsMap t os"

section \<open>The outside world\<close>

text \<open>
  A decoded property list, as \<open>plist.Unmarshal\<close> stores it in an \<open>interface{}\<close>:
  a dictionary is a \<open>map[string]interface{}\<close>, a string is a \<open>string\<close>, and every
  other kind of value is neither. The pairs of a dictionary are listed in the order in
  which \<open>range\<close> visits them.
\<close>

datatype plist =
    PString string
  | PDict "(string \<times> plist) list"
  | PArray "plist list"
  | PScalar int

record request =
  Method :: string
  URL :: string
  IfModifiedSince :: string

text \<open>\<open>Body\<close> is what reading the stream to its end gives: the bytes, or the read error.\<close>

record response =
  StatusCode :: int
  Body :: "error + string"

text \<open>What the tracker does to the network, in order.\<close>

datatype event =
    ClientDo request     \<comment> \<open>\<open>client.Do(req)\<close>\<close>
  | ReadAll response     \<comment> \<open>\<open>ioutil.ReadAll(resp.Body)\<close>\<close>
  | BodyClose response   \<comment> \<open>\<open>resp.Body.Close()\<close>\<close>

text \<open>
  The libraries and the environment the tracker calls: the HTTP client, the three
  compiled regular expressions (each as its \<open>FindStringSubmatch\<close>), the version
  parser, the property-list decoder, the formatting of a time and the clock. The clock is
  indexed by the key of the product being processed when it is read. During one cycle
  the world answers a request by its content alone.
\<close>

record world =
  urlError :: "string \<Rightarrow> error option"
  clientDo :: "request \<Rightarrow> error + response"
  Format :: "time \<Rightarrow> string"
  TitleRegex :: "string \<Rightarrow> string list"
  DiscardRegex :: "string \<Rightarrow> string list"
  VersionRegex :: "string \<Rightarrow> string list"
  NewVersion :: "string \<Rightarrow> error + Version"
  Unmarshal :: "string \<Rightarrow> error + plist"
  timeNow :: "string \<Rightarrow> time"

section \<open>The scraper\<close>

definition makeRequest :: "world \<Rightarrow> string \<Rightarrow> time \<Rightarrow> (error + response) \<times> event list" where
  "makeRequest w path lastModified =
     (case urlError w path of
        Some err \<Rightarrow> (Inl err, [])
      | None \<Rightarrow>
          (let req = \<lparr>Method = ''GET'', URL = path, IfModifiedSince = Format w lastModified\<rparr>
           in (clientDo w req, [ClientDo req])))"

definition getLatestVersion :: "world \<Rightarrow> string \<Rightarrow> time \<Rightarrow> (error + string) \<times> event list" where
  "getLatestVersion w distributionURL lastModified =
     (case makeRequest w distributionURL lastModified of
        (Inl err, tr) \<Rightarrow> (Inl err, tr)
      | (Inr resp, tr) \<Rightarrow>
          if StatusCode resp \<noteq> 200 then (Inr [], tr)
          else
            (case Body resp of
               Inl err \<Rightarrow> (Inl err, tr @ [ReadAll resp])
             | Inr body \<Rightarrow>
                 (let titleMatch = TitleRegex w body in
                  if length titleMatch \<noteq> 4 then (Inr [], tr @ [ReadAll resp])
                  else
                    (let discardMatch = DiscardRegex w (titleMatch ! 3) in
                     if 1 < length discardMatch then (Inr [], tr @ [ReadAll resp])
                     else
                       (let matches = VersionRegex w body in
                        if length matches \<noteq> 3
                        then (Inl (Error ''Could not find version in distribution''),
                              tr @ [ReadAll resp])
                        else (Inr (matches ! 2), tr @ [ReadAll resp]))))))"

text \<open>
  The type assertions \<open>x.(map[string]interface{})\<close> and \<open>x.(string)\<close> in their
  two-result form, on the result of a map lookup (\<open>None\<close> for a missing key).
\<close>

fun asDict :: "plist option \<Rightarrow> (string \<times> plist) list option" where
  "asDict (Some (PDict d)) = Some d"
| "asDict _ = None"

fun asString :: "plist option \<Rightarrow> string option" where
  "asString (Some (PString s)) = Some s"
| "asString _ = None"

text \<open>
  The critical section between \<open>t.mtx.Lock()\<close> and \<open>t.mtx.Unlock()\<close>, which the
  source writes out once for each of the three branch names.
\<close>

definition mergeLatest ::
  "string \<Rightarrow> Version \<Rightarrow> time \<Rightarrow> VersionsInfo \<times> bool \<Rightarrow> VersionsInfo \<times> bool" where
  "mergeLatest name v1 now st =
     (case st of (versionsInfo, changed) \<Rightarrow>
        (case LatestVersions versionsInfo name of
           None \<Rightarrow>
             (versionsInfo\<lparr>LatestVersions := (LatestVersions versionsInfo)(name \<mapsto> v1),
                           LastModified := now\<rparr>, True)
         | Some latest \<Rightarrow>
             if GreaterThan v1 latest
             then (versionsInfo\<lparr>LatestVersions := (LatestVersions versionsInfo)(name \<mapsto> v1),
                                LastModified := now\<rparr>, True)
             else (versionsInfo, changed)))"

text \<open>One iteration of the loop over \<open>productsMap\<close>.\<close>

definition processProduct ::
  "world \<Rightarrow> time \<Rightarrow> string \<times> plist \<Rightarrow> VersionsInfo \<times> bool \<Rightarrow> (VersionsInfo \<times> bool) \<times> event list" where
  "processProduct w lastModified kp st =
     (case kp of (key, product) \<Rightarrow>
        (case asDict (Some product) of
           None \<Rightarrow> (st, [])
         | Some productInfo \<Rightarrow>
             (case asDict (map_of productInfo ''Distributions'') of
                None \<Rightarrow> (st, [])
              | Some distributions \<Rightarrow>
                  (case asString (map_of distributions ''English'') of
                     None \<Rightarrow> (st, [])
                   | Some englishDistribution \<Rightarrow>
                       (case getLatestVersion w englishDistribution lastModified of
                          (Inl err, tr) \<Rightarrow> (st, tr)
                        | (Inr ver, tr) \<Rightarrow>
                            if ver = [] then (st, tr)
                            else
                              (case NewVersion w ver of
                                 Inl err \<Rightarrow> (st, tr)
                               | Inr v1 \<Rightarrow>
                                   if LessThan v1 elCapitanMajor then (st, tr)
                                   else if GreaterThan v1 highSierraMajor
                                   then (mergeLatest versionNameHighSierra v1 (timeNow w key) st, tr)
                                   else if GreaterThan v1 sierraMajor
                                   then (mergeLatest versionNameSierra v1 (timeNow w key) st, tr)
                                   else if GreaterThan v1 elCapitanMajor
                                   then (mergeLatest versionNameElCapitan v1 (timeNow w key) st, tr)
                                   else (st, tr)))))))"

fun productsLoop ::
  "world \<Rightarrow> time \<Rightarrow> (string \<times> plist) list \<Rightarrow> (VersionsInfo \<times> bool) \<times> event list \<Rightarrow>
   (VersionsInfo \<times> bool) \<times> event list" where
  "productsLoop w lastModified [] acc = acc"
| "productsLoop w lastModified (kp # rest) (st, tr) =
     (case processProduct w lastModified kp st of
        (st', tr') \<Rightarrow> productsLoop w lastModified rest (st', tr @ tr'))"

definition updateOSVersionsMapFromProductMap ::
  "world \<Rightarrow> plist \<Rightarrow> VersionsInfo \<Rightarrow> time \<Rightarrow> (error + bool) \<times> VersionsInfo \<times> event list" where
  "updateOSVersionsMapFromProductMap w productCatalogInterface versionsInfo lastModified =
     (case productCatalogInterface of
        PDict productCatalogMap \<Rightarrow>
          (case asDict (map_of productCatalogMap ''Products'') of
             None \<Rightarrow> (Inl (Error ''Could not parse products''), versionsInfo, [])
           | Some productsMap \<Rightarrow>
               (case productsLoop w lastModified productsMap ((versionsInfo, False), []) of
                  ((versionsInfo', changed), tr) \<Rightarrow> (Inr changed, versionsInfo', tr)))
      | _ \<Rightarrow> (Inl (Panic ''interface conversion: interface {} is not map[string]interface {}''),
              versionsInfo, []))"

definition parseCatalogResponse :: "world \<Rightarrow> response \<Rightarrow> (error + plist) \<times> event list" where
  "parseCatalogResponse w resp =
     (case Body resp of
        Inl err \<Rightarrow> (Inl err, [ReadAll resp])
      | Inr body \<Rightarrow> (Unmarshal w body, [ReadAll resp]))"

text \<open>
  \<open>versionsInfo\<close> is a pointer into \<open>t.osVersionsMap\<close>: what the loop stores through
  it is stored in the tracker, so the updated record is written back under
  \<open>OSTypeMac\<close>. With no entry for \<open>OSTypeMac\<close> the pointer is nil and reading
  \<open>versionsInfo.LatestVersions\<close> panics.
\<close>

definition updateOSVersionsMap ::
  "world \<Rightarrow> string \<Rightarrow> Tracker \<Rightarrow> (error + bool) \<times> Tracker \<times> event list" where
  "updateOSVersionsMap w url t =
     (case osVersionsMap t OSTypeMac of
        None \<Rightarrow> (Inl (Panic ''invalid memory address or nil pointer dereference''), t, [])
      | Some versionsInfo \<Rightarrow>
          (let lastModified = LastModified versionsInfo in
           case makeRequest w url lastModified of
             (Inl err, tr) \<Rightarrow> (Inl err, t, tr)
           | (Inr resp, tr) \<Rightarrow>
               if StatusCode resp \<noteq> 200 then (Inr False, t, tr)
               else
                 (case parseCatalogResponse w resp of
                    (Inl err, tr2) \<Rightarrow> (Inl err, t, tr @ tr2)
                  | (Inr productMap, tr2) \<Rightarrow>
                      (case updateOSVersionsMapFromProductMap w productMap versionsInfo lastModified of
                         (r, versionsInfo', tr3) \<Rightarrow>
                           (r, t\<lparr>osVersionsMap := (osVersionsMap t)(OSTypeMac \<mapsto> versionsInfo')\<rparr>,
                            tr @ tr2 @ tr3)))))"

text \<open>The error returned, if any; the log lines are not part of the state.\<close>

definition scrapeForMacVersions ::
  "world \<Rightarrow> string \<Rightarrow> Tracker \<Rightarrow> error option \<times> Tracker \<times> event list" where
  "scrapeForMacVersions w url t =
     (case updateOSVersionsMap w url t of
        (Inl err, t', tr) \<Rightarrow> (Some err, t', tr)
      | (Inr updated, t', tr) \<Rightarrow> (None, t', tr))"

text \<open>
  Up to here a panic travels as a result, like an error. It is raised in the goroutine
  of a worker, where nothing recovers it, so it ends the process: \<open>panicOf\<close> picks it
  out of what the worker returns.
\<close>

fun panicOf :: "error option \<Rightarrow> string option" where
  "panicOf (Some (Panic msg)) = Some msg"
| "panicOf _ = None"

text \<open>
  One worker per entry of \<open>MacCatalogs\<close>, joined by the wait group; the errors the
  workers return are dropped. \<open>MacCatalogs\<close> has one entry, so there is one worker.
  The first component of the result is the panic that ended the process, if there was one.
\<close>

fun scrapeCatalogs ::
  "world \<Rightarrow> (string \<times> string) list \<Rightarrow> Tracker \<times> event list \<Rightarrow>
   string option \<times> Tracker \<times> event list" where
  "scrapeCatalogs w [] (t, tr) = (None, t, tr)"
| "scrapeCatalogs w ((name, url) # rest) (t, tr) =
     (case scrapeForMacVersions w (catalogURL @ url) t of
        (r, t', tr') \<Rightarrow>
          (case panicOf r of
             Some msg \<Rightarrow> (Some msg, t', tr @ tr')
           | None \<Rightarrow> scrapeCatalogs w rest (t', tr @ tr')))"

definition ScrapeForMacVersions :: "world \<Rightarrow> Tracker \<Rightarrow> string option \<times> Tracker \<times> event list" where
  "ScrapeForMacVersions w t = scrapeCatalogs w MacCatalogs (t, [])"

section \<open>The scheduler\<close>

text \<open>
  \<open>mainLoop\<close>, given the world at its start and the cases its \<open>select\<close> statements
  take in order, a tick coming with the world as it is during the cycle that follows it.
  The result is the list of the calls made, the tracker at the end, and how the run stands:
  returned, waiting in \<open>select\<close> (the list ended before \<open>CtxDone\<close>), or ended by a
  panic. A panic in a scrape cycle ends the process, and so does \<open>time.NewTicker\<close> on
  a duration that is not positive; the duration is
  \<open>time.Duration(t.interval) * time.Second\<close>, a 64-bit product in nanoseconds.
\<close>

datatype selected = CtxDone | TimerC world

datatype call =
    CallScrapeForMacVersions
  | CallNewTicker "64 word"
  | CallTimerStop

datatype outcome = Returned | Waiting | Crashed string

definition tickerDuration :: "int \<Rightarrow> 64 word" where
  "tickerDuration i = word_of_int i * 1000000000"

fun selectLoop :: "selected list \<Rightarrow> Tracker \<Rightarrow> call list \<times> Tracker \<times> outcome" where
  "selectLoop [] t = ([], t, Waiting)"
| "selectLoop (CtxDone # rest) t = ([CallTimerStop], t, Returned)"
| "selectLoop (TimerC w # rest) t =
     (case ScrapeForMacVersions w t of
        (Some msg, t', tr) \<Rightarrow> ([CallScrapeForMacVersions], t', Crashed msg)
      | (None, t', tr) \<Rightarrow>
          (case selectLoop rest t' of
             (calls, t'', out) \<Rightarrow> (CallScrapeForMacVersions # calls, t'', out)))"

definition mainLoop :: "world \<Rightarrow> Tracker \<Rightarrow> selected list \<Rightarrow> call list \<times> Tracker \<times> outcome" where
  "mainLoop w t sel =
     (case ScrapeForMacVersions w t of
        (Some msg, t', tr) \<Rightarrow> ([CallScrapeForMacVersions], t', Crashed msg)
      | (None, t', tr) \<Rightarrow>
          if sint (tickerDuration (interval t')) \<le> 0
          then ([CallScrapeForMacVersions], t', Crashed ''non-positive interval for NewTicker'')
          else
            (case selectLoop sel t' of
               (calls, t'', out) \<Rightarrow>
                 (CallScrapeForMacVersions # CallNewTicker (tickerDuration (interval t')) # calls,
                  t'', out)))"

section \<open>Notions for the statements and a sample world\<close>

text \<open>
  A sequence of merges for one branch, each given with the reading of the clock at that
  merge: the critical section run once per element, in the order of the list.
\<close>

fun mergeAll ::
  "string \<Rightarrow> (Version \<times> time) list \<Rightarrow> VersionsInfo \<times> bool \<Rightarrow> VersionsInfo \<times> bool" where
  "mergeAll name [] st = st"
| "mergeAll name ((v1, now) # rest) st = mergeAll name rest (mergeLatest name v1 now st)"

text \<open>
  The scrape cycles of a run of the scheduler, one after the other, each in the world as
  it is at that cycle.
\<close>

fun scrapeCycles :: "world list \<Rightarrow> Tracker \<Rightarrow> Tracker" where
  "scrapeCycles [] t = t"
| "scrapeCycles (w # ws) t = scrapeCycles ws (fst (snd (ScrapeForMacVersions w t)))"

text \<open>None of those scrape cycles panics.\<close>

fun scrapesReturn :: "world list \<Rightarrow> Tracker \<Rightarrow> bool" where
  "scrapesReturn [] t = True"
| "scrapesReturn (w # ws) t =
     (fst (ScrapeForMacVersions w t) = None \<and> scrapesReturn ws (fst (snd (ScrapeForMacVersions w t))))"

text \<open>
  What one iteration of the loop hands to the critical section, read off
  \<open>processProduct\<close>: the branch name, the version and the reading of the clock, or
  nothing when the iteration ends in a \<open>continue\<close> or falls through the chain of
  comparisons. It is used to state facts about the loop, as is \<open>joinLatest\<close>, the
  effect of the critical section on the map alone.
\<close>

definition contribution :: "world \<Rightarrow> time \<Rightarrow> string \<times> plist \<Rightarrow> (string \<times> Version \<times> time) option" where
  "contribution w lastModified kp =
     (case asDict (Some (snd kp)) of
        None \<Rightarrow> None
      | Some productInfo \<Rightarrow>
          (case asDict (map_of productInfo ''Distributions'') of
             None \<Rightarrow> None
           | Some distributions \<Rightarrow>
               (case asString (map_of distributions ''English'') of
                  None \<Rightarrow> None
                | Some englishDistribution \<Rightarrow>
                    (case fst (getLatestVersion w englishDistribution lastModified) of
                       Inl err \<Rightarrow> None
                     | Inr ver \<Rightarrow>
                         if ver = [] then None
                         else
                           (case NewVersion w ver of
                              Inl err \<Rightarrow> None
                            | Inr v1 \<Rightarrow>
                                if highSierraMajor < v1
                                then Some (versionNameHighSierra, v1, timeNow w (fst kp))
                                else if sierraMajor < v1
                                then Some (versionNameSierra, v1, timeNow w (fst kp))
                                else if elCapitanMajor < v1
                                then Some (versionNameElCapitan, v1, timeNow w (fst kp))
                                else None)))))"

definition joinLatest :: "(string \<times> Version \<times> time) option \<Rightarrow> (string \<rightharpoonup> Version) \<Rightarrow> (string \<rightharpoonup> Version)" where
  "joinLatest c m =
     (case c of
        None \<Rightarrow> m
      | Some (b, v, now) \<Rightarrow> m(b \<mapsto> (case m b of None \<Rightarrow> v | Some u \<Rightarrow> max u v)))"

text \<open>
  A small world for concrete runs. The catalog lists six products; the distribution of
  each is a short document, and the three patterns and the version parser are given by
  their results on those documents.
\<close>

definition sampleProduct :: "string \<Rightarrow> plist" where
  "sampleProduct englishDistribution =
     PDict [(''ServerMetadataURL'', PString ''smd''),
            (''Distributions'', PDict [(''English'', PString englishDistribution)])]"

definition sampleProducts :: "(string \<times> plist) list" where
  "sampleProducts =
     [(''091-39211'', sampleProduct ''hs''),
      (''091-22860'', sampleProduct ''down''),
      (''031-63178'', sampleProduct ''ec''),
      (''031-30888'', sampleProduct ''yo''),
      (''041-00001'', sampleProduct ''rec''),
      (''041-00002'', sampleProduct ''nm'')]"

definition sampleCatalog :: plist where
  "sampleCatalog = PDict [(''CatalogVersion'', PScalar 2), (''Products'', PDict sampleProducts)]"

definition sampleResponse :: "string \<Rightarrow> error + response" where
  "sampleResponse url =
     (if url = catalogURL @ snd (hd MacCatalogs)
      then Inr \<lparr>StatusCode = 200, Body = Inr ''plist''\<rparr>
      else if url = ''hs'' then Inr \<lparr>StatusCode = 200, Body = Inr ''10.13.6''\<rparr>
      else if url = ''hs0'' then Inr \<lparr>StatusCode = 200, Body = Inr ''10.13.0''\<rparr>
      else if url = ''ec'' then Inr \<lparr>StatusCode = 200, Body = Inr ''10.11.6''\<rparr>
      else if url = ''ec0'' then Inr \<lparr>StatusCode = 200, Body = Inr ''10.11.0''\<rparr>
      else if url = ''yo'' then Inr \<lparr>StatusCode = 200, Body = Inr ''10.10.5''\<rparr>
      else if url = ''rec'' then Inr \<lparr>StatusCode = 200, Body = Inr ''Recovery''\<rparr>
      else if url = ''bad'' then Inr \<lparr>StatusCode = 200, Body = Inr ''10.x''\<rparr>
      else if url = ''nm'' then Inr \<lparr>StatusCode = 304, Body = Inr []\<rparr>
      else Inl (Error ''dial tcp: i/o timeout''))"

definition sampleNewVersion :: "string \<Rightarrow> error + Version" where
  "sampleNewVersion ver =
     (if ver = ''10.13.6'' then Inr (Version 10 13 6)
      else if ver = ''10.13.0'' then Inr (Version 10 13 0)
      else if ver = ''10.11.6'' then Inr (Version 10 11 6)
      else if ver = ''10.11.0'' then Inr (Version 10 11 0)
      else if ver = ''10.10.5'' then Inr (Version 10 10 5)
      else Inl (Error ''Malformed version''))"

definition sampleWorld :: world where
  "sampleWorld =
     \<lparr>urlError = (\<lambda>path. None),
      clientDo = (\<lambda>req. sampleResponse (URL req)),
      Format = (\<lambda>t. ''Mon, 1 Jan 0001 00:00:00 GMT''),
      TitleRegex = (\<lambda>body. [body, ''SU_TITLE'', ''OS X'', body]),
      DiscardRegex = (\<lambda>title. if title = ''Recovery'' then [title, [], title, []] else []),
      VersionRegex = (\<lambda>body. [body, ''SU_VERS'', body]),
      NewVersion = sampleNewVersion,
      Unmarshal = (\<lambda>body. if body = ''plist'' then Inr sampleCatalog else Inl (Error ''plist: invalid'')),
      timeNow = (\<lambda>key. 1000)\<rparr>"

definition sampleRequest :: "string \<Rightarrow> request" where
  "sampleRequest url = \<lparr>Method = ''GET'', URL = url, IfModifiedSince = ''Mon, 1 Jan 0001 00:00:00 GMT''\<rparr>"

definition emptyInfo :: VersionsInfo where
  "emptyInfo = \<lparr>LatestVersions = Map.empty, LastModified = zeroTime\<rparr>"

text \<open>
  Two more worlds: one whose server answers every request with 304, and one whose decoder
  returns a property list that is an array.
\<close>

definition quietWorld :: world where
  "quietWorld = sampleWorld\<lparr>clientDo := (\<lambda>req. Inr \<lparr>StatusCode = 304, Body = Inr []\<rparr>)\<rparr>"

definition brokenWorld :: world where
  "brokenWorld = sampleWorld\<lparr>Unmarshal := (\<lambda>body. Inr (PArray []))\<rparr>"

definition sampleTracker :: Tracker where
  "sampleTracker =
     \<lparr>interval = 300,
      osVersionsMap =
        [OSTypeMac \<mapsto> \<lparr>LatestVersions = [versionNameHighSierra \<mapsto> Version 10 13 4,
                                            versionNameElCapitan \<mapsto> Version 10 11 6],
                        LastModified = 500\<rparr>]\<rparr>"

section \<open>Facts about versions and the merge\<close>

lemma GreaterThan_less: "GreaterThan v u = (u < v)"
  by (cases v; cases u) (simp add: GreaterThan_def less_Version_def)

lemma LessThan_less: "LessThan v u = (v < u)"
  by (simp add: LessThan_def less_Version_def)

lemma mergeLatest_cases:
  "mergeLatest b v now (vi, c) =
     (if (case LatestVersions vi b of None \<Rightarrow> True | Some u \<Rightarrow> u < v)
      then (vi\<lparr>LatestVersions := (LatestVersions vi)(b \<mapsto> v), LastModified := now\<rparr>, True)
      else (vi, c))"
  by (simp add: mergeLatest_def GreaterThan_less split: option.splits)

lemma mergeLatest_mono:
  assumes "LatestVersions vi n = Some u"
  shows "\<exists>u'. LatestVersions (fst (mergeLatest b v now (vi, c))) n = Some u' \<and> u \<le> u'"
  using assms by (auto simp: mergeLatest_cases split: option.splits)

lemma processProduct_mono:
  assumes "LatestVersions (fst st) n = Some u"
  shows "\<exists>u'. LatestVersions (fst (fst (processProduct w lm kp st))) n = Some u' \<and> u \<le> u'"
proof -
  obtain vi c where st: "st = (vi, c)" by (cases st)
  have m: "\<And>b v now. \<exists>u'. LatestVersions (fst (mergeLatest b v now (vi, c))) n = Some u' \<and> u \<le> u'"
    using assms st mergeLatest_mono by simp
  show ?thesis
    using assms m unfolding processProduct_def st
    by (simp split: prod.splits option.splits sum.splits)
qed

section \<open>Facts about the loop over the products\<close>

lemma productsLoop_trace_irrelevant:
  "fst (productsLoop w lm ps (st, tr)) = fst (productsLoop w lm ps (st, tr'))"
  by (induction ps arbitrary: st tr tr') (auto split: prod.splits)

lemma productsLoop_append:
  "productsLoop w lm (xs @ ys) acc = productsLoop w lm ys (productsLoop w lm xs acc)"
proof (induction xs arbitrary: acc)
  case Nil
  then show ?case by simp
next
  case (Cons x xs)
  then show ?case by (cases acc) (simp split: prod.splits)
qed

text \<open>A product whose iteration leaves the state as it was can be left out of the loop.\<close>

lemma productsLoop_skip:
  assumes "\<And>st'. fst (processProduct w lm kp st') = st'"
  shows "fst (productsLoop w lm (xs @ kp # ys) (st, tr)) = fst (productsLoop w lm (xs @ ys) (st, tr))"
proof -
  obtain st1 tr1 where a: "productsLoop w lm xs (st, tr) = (st1, tr1)"
    by (cases "productsLoop w lm xs (st, tr)")
  obtain st2 tr2 where b: "processProduct w lm kp st1 = (st2, tr2)"
    by (cases "processProduct w lm kp st1")
  from assms [of st1] b have "st2 = st1" by simp
  then show ?thesis
    using productsLoop_trace_irrelevant [of w lm ys st1 "tr1 @ tr2" tr1]
    by (simp add: productsLoop_append a b)
qed

lemma processProduct_fetch_error:
  assumes "asDict (Some product) = Some productInfo"
    and "asDict (map_of productInfo ''Distributions'') = Some distributions"
    and "asString (map_of distributions ''English'') = Some englishDistribution"
    and "fst (getLatestVersion w englishDistribution lm) = Inl err"
  shows "fst (processProduct w lm (key, product) st) = st"
  using assms
  by (cases "getLatestVersion w englishDistribution lm") (simp add: processProduct_def)

lemma processProduct_parse_error:
  assumes "asDict (Some product) = Some productInfo"
    and "asDict (map_of productInfo ''Distributions'') = Some distributions"
    and "asString (map_of distributions ''English'') = Some englishDistribution"
    and "fst (getLatestVersion w englishDistribution lm) = Inr ver"
    and "NewVersion w ver = Inl err"
  shows "fst (processProduct w lm (key, product) st) = st"
  using assms
  by (cases "getLatestVersion w englishDistribution lm") (simp add: processProduct_def)

lemma processProduct_not_classified:
  assumes "asDict (Some product) = Some productInfo"
    and "asDict (map_of productInfo ''Distributions'') = Some distributions"
    and "asString (map_of distributions ''English'') = Some englishDistribution"
    and "fst (getLatestVersion w englishDistribution lm) = Inr ver"
    and "NewVersion w ver = Inr v1"
    and "v1 \<le> elCapitanMajor"
  shows "fst (processProduct w lm (key, product) st) = st"
proof -
  have "\<not> GreaterThan v1 highSierraMajor" "\<not> GreaterThan v1 sierraMajor"
    "\<not> GreaterThan v1 elCapitanMajor"
    using assms(6)
    by (cases v1; simp add: elCapitanMajor_def sierraMajor_def highSierraMajor_def
          GreaterThan_def less_eq_Version_def split: if_splits)+
  then show ?thesis
    using assms(1-5)
    by (cases "getLatestVersion w englishDistribution lm") (simp add: processProduct_def)
qed

section \<open>The stored versions never decrease\<close>

lemma productsLoop_mono:
  "LatestVersions (fst (fst acc)) n = Some u \<Longrightarrow>
     \<exists>u'. LatestVersions (fst (fst (productsLoop w lm ps acc))) n = Some u' \<and> u \<le> u'"
proof (induction ps arbitrary: acc u)
  case Nil
  then show ?case by simp
next
  case (Cons kp ps)
  obtain st tr where acc: "acc = (st, tr)" by (cases acc)
  obtain st' tr' where p: "processProduct w lm kp st = (st', tr')"
    by (cases "processProduct w lm kp st")
  from Cons.prems acc processProduct_mono [of st n u w lm kp] p
  obtain u1 where u1: "LatestVersions (fst st') n = Some u1" "u \<le> u1" by auto
  from Cons.IH [of "(st', tr @ tr')" u1] u1
  obtain u2 where "LatestVersions (fst (fst (productsLoop w lm ps (st', tr @ tr')))) n = Some u2"
    "u1 \<le> u2"
    by auto
  with u1 show ?case by (auto simp: acc p)
qed

lemma updateOSVersionsMapFromProductMap_mono:
  assumes "LatestVersions vi n = Some u"
  shows "\<exists>u'. LatestVersions (fst (snd (updateOSVersionsMapFromProductMap w cat vi lm))) n = Some u'
           \<and> u \<le> u'"
proof (cases "\<exists>c ps. cat = PDict c \<and> asDict (map_of c ''Products'') = Some ps")
  case True
  then obtain c ps where c: "cat = PDict c" "asDict (map_of c ''Products'') = Some ps" by blast
  from productsLoop_mono [of "((vi, False), [])" n u w lm ps] assms
  obtain u' where "LatestVersions (fst (fst (productsLoop w lm ps ((vi, False), [])))) n = Some u'"
    "u \<le> u'" by auto
  then show ?thesis
    by (auto simp: updateOSVersionsMapFromProductMap_def c split: prod.splits)
next
  case False
  then have "fst (snd (updateOSVersionsMapFromProductMap w cat vi lm)) = vi"
    by (cases cat) (auto simp: updateOSVersionsMapFromProductMap_def split: option.splits)
  with assms show ?thesis by simp
qed

lemma updateOSVersionsMap_mono:
  assumes "osVersionsMap t os = Some vi" and "LatestVersions vi n = Some u"
  shows "\<exists>vi' u'. osVersionsMap (fst (snd (updateOSVersionsMap w url t))) os = Some vi'
           \<and> LatestVersions vi' n = Some u' \<and> u \<le> u'"
proof (cases "osVersionsMap t OSTypeMac")
  case None
  with assms show ?thesis by (auto simp: updateOSVersionsMap_def)
next
  case (Some vm)
  obtain r tr where mr: "makeRequest w url (LastModified vm) = (r, tr)"
    by (cases "makeRequest w url (LastModified vm)")
  show ?thesis
  proof (cases "\<exists>resp productMap tr2. r = Inr resp \<and> StatusCode resp = 200
                  \<and> parseCatalogResponse w resp = (Inr productMap, tr2)")
    case True
    then obtain resp productMap tr2 where h: "r = Inr resp" "StatusCode resp = 200"
      "parseCatalogResponse w resp = (Inr productMap, tr2)" by blast
    obtain r3 vi3 tr3 where
      up: "updateOSVersionsMapFromProductMap w productMap vm (LastModified vm) = (r3, vi3, tr3)"
      by (cases "updateOSVersionsMapFromProductMap w productMap vm (LastModified vm)")
    have t': "fst (snd (updateOSVersionsMap w url t)) = t\<lparr>osVersionsMap := (osVersionsMap t)(OSTypeMac \<mapsto> vi3)\<rparr>"
      by (simp add: updateOSVersionsMap_def Some mr h up)
    show ?thesis
    proof (cases "os = OSTypeMac")
      case True
      with assms Some have "LatestVersions vm n = Some u" by simp
      from updateOSVersionsMapFromProductMap_mono [OF this, of w productMap "LastModified vm"] up
      show ?thesis by (simp add: t' True)
    next
      case False
      with assms show ?thesis by (simp add: t')
    qed
  next
    case False
    then have "fst (snd (updateOSVersionsMap w url t)) = t"
      by (cases r; cases "StatusCode (projr r) = 200"; cases "parseCatalogResponse w (projr r)"; cases "fst (parseCatalogResponse w (projr r))")
        (auto simp: updateOSVersionsMap_def Some mr)
    with assms show ?thesis by simp
  qed
qed

lemma scrapeCatalogs_mono:
  assumes "osVersionsMap (fst acc) os = Some vi" and "LatestVersions vi n = Some u"
  shows "\<exists>vi' u'. osVersionsMap (fst (snd (scrapeCatalogs w cs acc))) os = Some vi'
           \<and> LatestVersions vi' n = Some u' \<and> u \<le> u'"
  using assms
proof (induction cs arbitrary: acc vi u)
  case Nil
  then show ?case by (cases acc) simp
next
  case (Cons c cs)
  obtain name url where c: "c = (name, url)" by (cases c)
  obtain t tr where acc: "acc = (t, tr)" by (cases acc)
  obtain r t' tr' where s: "scrapeForMacVersions w (catalogURL @ url) t = (r, t', tr')"
    by (cases "scrapeForMacVersions w (catalogURL @ url) t")
  have "t' = fst (snd (updateOSVersionsMap w (catalogURL @ url) t))"
    using s by (auto simp: scrapeForMacVersions_def split: prod.splits sum.splits)
  with updateOSVersionsMap_mono [of t os vi n u w "catalogURL @ url"] Cons.prems acc
  obtain vi1 u1 where 1: "osVersionsMap t' os = Some vi1" "LatestVersions vi1 n = Some u1" "u \<le> u1"
    by auto
  show ?case
  proof (cases "panicOf r")
    case (Some msg)
    with 1 show ?thesis by (simp add: c acc s)
  next
    case None
    from Cons.IH [of "(t', tr @ tr')" vi1 u1] 1
    obtain vi2 u2 where "osVersionsMap (fst (snd (scrapeCatalogs w cs (t', tr @ tr')))) os = Some vi2"
      "LatestVersions vi2 n = Some u2" "u1 \<le> u2" by auto
    with 1 None show ?thesis by (auto simp: c acc s)
  qed
qed

lemma scrapeCycles_mono:
  assumes "osVersionsMap t os = Some vi" and "LatestVersions vi n = Some u"
  shows "\<exists>vi' u'. osVersionsMap (scrapeCycles ws t) os = Some vi'
           \<and> LatestVersions vi' n = Some u' \<and> u \<le> u'"
  using assms
proof (induction ws arbitrary: t vi u)
  case Nil
  then show ?case by simp
next
  case (Cons w ws)
  from scrapeCatalogs_mono [of "(t, [])" os vi n u w MacCatalogs] Cons.prems
  obtain vi1 u1 where 1: "osVersionsMap (fst (snd (ScrapeForMacVersions w t))) os = Some vi1"
    "LatestVersions vi1 n = Some u1" "u \<le> u1"
    by (auto simp: ScrapeForMacVersions_def)
  from Cons.IH [OF 1(1) 1(2)]
  obtain vi2 u2 where
    "osVersionsMap (scrapeCycles ws (fst (snd (ScrapeForMacVersions w t)))) os = Some vi2"
    "LatestVersions vi2 n = Some u2" "u1 \<le> u2" by auto
  with 1 show ?case by auto
qed

section \<open>Sequences of merges for one branch\<close>

lemma mergeAll_other:
  "n \<noteq> b \<Longrightarrow> LatestVersions (fst (mergeAll b vs st)) n = LatestVersions (fst st) n"
proof (induction vs arbitrary: st)
  case Nil
  then show ?case by simp
next
  case (Cons x vs)
  obtain v now where x: "x = (v, now)" by (cases x)
  obtain vi c where st: "st = (vi, c)" by (cases st)
  from Cons show ?case by (simp add: x st mergeLatest_cases)
qed

lemma mergeAll_Some:
  "LatestVersions (fst st) b = Some u \<Longrightarrow>
   LatestVersions (fst (mergeAll b vs st)) b = Some (Max (insert u (fst ` set vs)))"
proof (induction vs arbitrary: st u)
  case Nil
  then show ?case by simp
next
  case (Cons x vs)
  obtain v now where x: "x = (v, now)" by (cases x)
  obtain vi c where st: "st = (vi, c)" by (cases st)
  have 1: "LatestVersions (fst (mergeLatest b v now st)) b = Some (max u v)"
    using Cons.prems by (auto simp: st mergeLatest_cases max_def)
  have "Max (insert (max u v) (fst ` set vs)) = Max (insert u (insert v (fst ` set vs)))"
    by (cases "fst ` set vs = {}") (simp_all add: max.assoc)
  with Cons.IH [OF 1] show ?case by (simp add: x)
qed

lemma mergeAll_None:
  assumes "LatestVersions (fst st) b = None" and "vs \<noteq> []"
  shows "LatestVersions (fst (mergeAll b vs st)) b = Some (Max (fst ` set vs))"
proof -
  obtain v now rest where vs: "vs = (v, now) # rest"
    using assms(2) by (cases vs) auto
  obtain vi c where st: "st = (vi, c)" by (cases st)
  have "LatestVersions (fst (mergeLatest b v now st)) b = Some v"
    using assms(1) by (simp add: st mergeLatest_cases)
  from mergeAll_Some [OF this, of rest] show ?thesis by (simp add: vs)
qed

lemma mergeAll_order_independent:
  assumes "LatestVersions vi b = None"
    and "vs \<noteq> []"
    and "mset (map fst vs') = mset (map fst vs)"
  shows "LatestVersions (fst (mergeAll b vs (vi, c))) b = Some (Max (set (map fst vs)))
       \<and> LatestVersions (fst (mergeAll b vs' (vi, c))) = LatestVersions (fst (mergeAll b vs (vi, c)))
       \<and> LatestVersions (fst (mergeAll b (vs @ vs') (vi, c))) =
           LatestVersions (fst (mergeAll b vs (vi, c)))"
proof -
  have s: "fst ` set vs' = fst ` set vs"
    using assms(3) by (metis mset_eq_setD set_map)
  have ne: "vs' \<noteq> []"
    using assms(2,3) by auto
  have 1: "LatestVersions (fst (mergeAll b vs (vi, c))) b = Some (Max (fst ` set vs))"
    using mergeAll_None [of "(vi, c)" b vs] assms by simp
  have 2: "LatestVersions (fst (mergeAll b vs' (vi, c))) b = Some (Max (fst ` set vs))"
    using mergeAll_None [of "(vi, c)" b vs'] assms(1) ne s by simp
  have 3: "LatestVersions (fst (mergeAll b (vs @ vs') (vi, c))) b = Some (Max (fst ` set vs))"
    using mergeAll_None [of "(vi, c)" b "vs @ vs'"] assms(1,2) s by (simp add: image_Un)
  have "LatestVersions (fst (mergeAll b vs' (vi, c))) n = LatestVersions (fst (mergeAll b vs (vi, c))) n" for n
    using 1 2 mergeAll_other [of n b] by (cases "n = b") simp_all
  moreover have "LatestVersions (fst (mergeAll b (vs @ vs') (vi, c))) n = LatestVersions (fst (mergeAll b vs (vi, c))) n" for n
    using 1 3 mergeAll_other [of n b] by (cases "n = b") simp_all
  ultimately show ?thesis using 1 by auto
qed

section \<open>A product that contributes nothing\<close>

lemma cycle_without_product:
  assumes "\<And>st'. fst (processProduct w lm kp st') = st'"
    and "asDict (map_of cat ''Products'') = Some (xs @ kp # ys)"
    and "asDict (map_of cat' ''Products'') = Some (xs @ ys)"
  shows "\<exists>changed vi' tr tr'.
           updateOSVersionsMapFromProductMap w (PDict cat) vi lm = (Inr changed, vi', tr)
         \<and> updateOSVersionsMapFromProductMap w (PDict cat') vi lm = (Inr changed, vi', tr')"
proof -
  obtain vi1 c1 tr1 where a: "productsLoop w lm (xs @ kp # ys) ((vi, False), []) = ((vi1, c1), tr1)"
    by (cases "productsLoop w lm (xs @ kp # ys) ((vi, False), [])") auto
  obtain vi2 c2 tr2 where b: "productsLoop w lm (xs @ ys) ((vi, False), []) = ((vi2, c2), tr2)"
    by (cases "productsLoop w lm (xs @ ys) ((vi, False), [])") auto
  from productsLoop_skip [of w lm kp xs ys "(vi, False)" "[]"] assms(1) a b
  have "vi1 = vi2" "c1 = c2" by simp_all
  then show ?thesis
    by (simp add: updateOSVersionsMapFromProductMap_def assms(2,3) a b)
qed

section \<open>The loop in any order\<close>

lemma thresholds_ordered: "elCapitanMajor < sierraMajor" "sierraMajor < highSierraMajor"
  by (simp_all add: elCapitanMajor_def sierraMajor_def highSierraMajor_def less_Version_def)

lemma processProduct_contribution:
  "fst (processProduct w lm kp st) =
     (case contribution w lm kp of
        None \<Rightarrow> st
      | Some (b, v, now) \<Rightarrow> mergeLatest b v now st)"
proof -
  have a: "v1 < elCapitanMajor \<Longrightarrow> \<not> highSierraMajor < v1 \<and> \<not> sierraMajor < v1 \<and> \<not> elCapitanMajor < v1" for v1
    using thresholds_ordered by auto
  show ?thesis
    by (cases kp; cases "getLatestVersion w (the (asString (map_of (the (asDict (map_of (the (asDict (Some (snd kp)))) ''Distributions''))) ''English''))) lm")
      (auto simp: processProduct_def contribution_def LessThan_less GreaterThan_less dest: a
          split: option.splits sum.splits)
qed

lemma contribution_above:
  "contribution w lm kp = Some (b, v, now) \<Longrightarrow> elCapitanMajor < v"
  using thresholds_ordered
  by (auto simp: contribution_def split: option.splits sum.splits if_splits)

lemma mergeLatest_join:
  "LatestVersions (fst (mergeLatest b v now st)) = joinLatest (Some (b, v, now)) (LatestVersions (fst st))"
  by (cases st) (auto simp: mergeLatest_cases joinLatest_def max_def split: option.splits)

lemma processProduct_join:
  "LatestVersions (fst (fst (processProduct w lm kp st))) =
     joinLatest (contribution w lm kp) (LatestVersions (fst st))"
  by (cases "contribution w lm kp")
     (auto simp: processProduct_contribution mergeLatest_join, simp add: joinLatest_def)

lemma productsLoop_join:
  "LatestVersions (fst (fst (productsLoop w lm ps acc))) =
     fold (\<lambda>kp. joinLatest (contribution w lm kp)) ps (LatestVersions (fst (fst acc)))"
proof (induction ps arbitrary: acc)
  case Nil
  then show ?case by simp
next
  case (Cons kp ps)
  obtain st tr where acc: "acc = (st, tr)" by (cases acc)
  obtain st' tr' where p: "processProduct w lm kp st = (st', tr')"
    by (cases "processProduct w lm kp st")
  from processProduct_join [of w lm kp st] p
  have "LatestVersions (fst st') = joinLatest (contribution w lm kp) (LatestVersions (fst st))"
    by simp
  with Cons.IH [of "(st', tr @ tr')"] show ?case by (simp add: acc p)
qed

lemma joinLatest_commute: "joinLatest c (joinLatest d m) = joinLatest d (joinLatest c m)"
  by (cases c; cases d) (auto simp: joinLatest_def max.commute max.left_commute fun_upd_twist split: option.splits)

lemma productsLoop_order_independent:
  assumes "mset ps' = mset ps"
  shows "LatestVersions (fst (fst (productsLoop w lm ps' ((vi, c'), tr')))) =
         LatestVersions (fst (fst (productsLoop w lm ps ((vi, c), tr))))"
proof -
  have "fold (\<lambda>kp. joinLatest (contribution w lm kp)) ps' = fold (\<lambda>kp. joinLatest (contribution w lm kp)) ps"
    by (rule fold_multiset_equiv) (auto simp: joinLatest_commute assms)
  then show ?thesis by (simp add: productsLoop_join)
qed

section \<open>What a cycle stores\<close>

lemma processProduct_stores_tracked:
  assumes "LatestVersions (fst (fst (processProduct w lm kp st))) n = Some x"
  shows "LatestVersions (fst st) n = Some x \<or> elCapitanMajor < x"
proof (cases "contribution w lm kp")
  case None
  with assms show ?thesis by (simp add: processProduct_join joinLatest_def)
next
  case (Some c)
  obtain b v now where c: "c = (b, v, now)" by (cases c)
  from contribution_above [of w lm kp b v now] Some c have "elCapitanMajor < v" by simp
  with assms show ?thesis
    by (auto simp: processProduct_join joinLatest_def Some c max_def split: option.splits if_splits)
qed

lemma productsLoop_stores_tracked:
  "LatestVersions (fst (fst (productsLoop w lm ps acc))) n = Some x \<Longrightarrow>
   LatestVersions (fst (fst acc)) n = Some x \<or> elCapitanMajor < x"
proof (induction ps arbitrary: acc)
  case Nil
  then show ?case by simp
next
  case (Cons kp ps)
  obtain st tr where acc: "acc = (st, tr)" by (cases acc)
  obtain st' tr' where p: "processProduct w lm kp st = (st', tr')"
    by (cases "processProduct w lm kp st")
  from Cons.prems have "LatestVersions (fst (fst (productsLoop w lm ps (st', tr @ tr')))) n = Some x"
    by (simp add: acc p)
  from Cons.IH [OF this] have "LatestVersions (fst st') n = Some x \<or> elCapitanMajor < x"
    by simp
  then show ?case
    using processProduct_stores_tracked [of w lm kp st n x] p acc by auto
qed

lemma cycle_stores_tracked:
  assumes "LatestVersions (fst (snd (updateOSVersionsMapFromProductMap w cat vi lm))) n = Some x"
  shows "LatestVersions vi n = Some x \<or> elCapitanMajor < x"
proof (cases "\<exists>c ps. cat = PDict c \<and> asDict (map_of c ''Products'') = Some ps")
  case True
  then obtain c ps where c: "cat = PDict c" "asDict (map_of c ''Products'') = Some ps" by blast
  from assms have "LatestVersions (fst (fst (productsLoop w lm ps ((vi, False), [])))) n = Some x"
    by (auto simp: updateOSVersionsMapFromProductMap_def c split: prod.splits)
  from productsLoop_stores_tracked [OF this] show ?thesis by simp
next
  case False
  then have "fst (snd (updateOSVersionsMapFromProductMap w cat vi lm)) = vi"
    by (cases cat) (auto simp: updateOSVersionsMapFromProductMap_def split: option.splits)
  with assms show ?thesis by simp
qed

section \<open>Runs in the sample world\<close>

lemma sampleWorld_fields:
  "NewVersion sampleWorld = sampleNewVersion"
  "timeNow sampleWorld key = 1000"
  by (simp_all add: sampleWorld_def)

lemma sample_hs0:
  "getLatestVersion sampleWorld ''hs0'' lm =
     (Inr ''10.13.0'', [ClientDo (sampleRequest ''hs0''), ReadAll \<lparr>StatusCode = 200, Body = Inr ''10.13.0''\<rparr>])"
  by (simp add: getLatestVersion_def makeRequest_def sampleWorld_def sampleResponse_def sampleRequest_def
      catalogURL_def MacCatalogs_def)

lemma sample_nm:
  "makeRequest sampleWorld ''nm'' lm = (Inr \<lparr>StatusCode = 304, Body = Inr []\<rparr>, [ClientDo (sampleRequest ''nm'')])"
  by (simp add: makeRequest_def sampleWorld_def sampleResponse_def sampleRequest_def
      catalogURL_def MacCatalogs_def)

lemma sample_rec:
  "makeRequest sampleWorld ''rec'' lm = (Inr \<lparr>StatusCode = 200, Body = Inr ''Recovery''\<rparr>, [ClientDo (sampleRequest ''rec'')])"
  by (simp add: makeRequest_def sampleWorld_def sampleResponse_def sampleRequest_def
      catalogURL_def MacCatalogs_def)

lemma sample_down:
  "getLatestVersion sampleWorld ''down'' lm =
     (Inl (Error ''dial tcp: i/o timeout''), [ClientDo (sampleRequest ''down'')])"
  by (simp add: getLatestVersion_def makeRequest_def sampleWorld_def sampleResponse_def sampleRequest_def
      catalogURL_def MacCatalogs_def)

lemma sample_yo:
  "getLatestVersion sampleWorld ''yo'' lm =
     (Inr ''10.10.5'', [ClientDo (sampleRequest ''yo''), ReadAll \<lparr>StatusCode = 200, Body = Inr ''10.10.5''\<rparr>])"
  by (simp add: getLatestVersion_def makeRequest_def sampleWorld_def sampleResponse_def sampleRequest_def
      catalogURL_def MacCatalogs_def)

lemma sample_ec0:
  "getLatestVersion sampleWorld ''ec0'' lm =
     (Inr ''10.11.0'', [ClientDo (sampleRequest ''ec0''), ReadAll \<lparr>StatusCode = 200, Body = Inr ''10.11.0''\<rparr>])"
  by (simp add: getLatestVersion_def makeRequest_def sampleWorld_def sampleResponse_def sampleRequest_def
      catalogURL_def MacCatalogs_def)

lemma sample_hs:
  "getLatestVersion sampleWorld ''hs'' lm =
     (Inr ''10.13.6'', [ClientDo (sampleRequest ''hs''), ReadAll \<lparr>StatusCode = 200, Body = Inr ''10.13.6''\<rparr>])"
  by (simp add: getLatestVersion_def makeRequest_def sampleWorld_def sampleResponse_def sampleRequest_def
      catalogURL_def MacCatalogs_def)

lemma sample_ec:
  "getLatestVersion sampleWorld ''ec'' lm =
     (Inr ''10.11.6'', [ClientDo (sampleRequest ''ec''), ReadAll \<lparr>StatusCode = 200, Body = Inr ''10.11.6''\<rparr>])"
  by (simp add: getLatestVersion_def makeRequest_def sampleWorld_def sampleResponse_def sampleRequest_def
      catalogURL_def MacCatalogs_def)

lemma sample_rec_version:
  "getLatestVersion sampleWorld ''rec'' lm =
     (Inr [], [ClientDo (sampleRequest ''rec''), ReadAll \<lparr>StatusCode = 200, Body = Inr ''Recovery''\<rparr>])"
  by (simp add: getLatestVersion_def makeRequest_def sampleWorld_def sampleResponse_def sampleRequest_def
      catalogURL_def MacCatalogs_def)

lemma sample_nm_version:
  "getLatestVersion sampleWorld ''nm'' lm = (Inr [], [ClientDo (sampleRequest ''nm'')])"
  by (simp add: getLatestVersion_def makeRequest_def sampleWorld_def sampleResponse_def sampleRequest_def
      catalogURL_def MacCatalogs_def)

lemma sampleProduct_parts:
  "asDict (Some (sampleProduct u)) =
     Some [(''ServerMetadataURL'', PString ''smd''), (''Distributions'', PDict [(''English'', PString u)])]"
  "asDict (map_of [(''ServerMetadataURL'', PString ''smd''),
                   (''Distributions'', PDict [(''English'', PString u)])] ''Distributions'') =
     Some [(''English'', PString u)]"
  "asString (map_of [(''English'', PString u)] ''English'') = Some u"
  by (simp_all add: sampleProduct_def)

lemma sampleCatalog_split:
  "asDict (map_of [(''CatalogVersion'', PScalar 2), (''Products'', PDict sampleProducts)] ''Products'') =
     Some ([(''091-39211'', sampleProduct ''hs'')] @ (''091-22860'', sampleProduct ''down'') #
           [(''031-63178'', sampleProduct ''ec''), (''031-30888'', sampleProduct ''yo''),
            (''041-00001'', sampleProduct ''rec''), (''041-00002'', sampleProduct ''nm'')])"
  "asDict (map_of [(''CatalogVersion'', PScalar 2), (''Products'', PDict sampleProducts)] ''Products'') =
     Some ([(''091-39211'', sampleProduct ''hs''), (''091-22860'', sampleProduct ''down''),
            (''031-63178'', sampleProduct ''ec'')] @ (''031-30888'', sampleProduct ''yo'') #
           [(''041-00001'', sampleProduct ''rec''), (''041-00002'', sampleProduct ''nm'')])"
  by (simp_all add: sampleProducts_def)

section \<open>The network trace\<close>

lemma makeRequest_noClose: "BodyClose r \<notin> set (snd (makeRequest w path lm))"
  by (simp add: makeRequest_def Let_def split: option.splits)

lemma getLatestVersion_trace:
  "snd (getLatestVersion w url lm) =
     (case makeRequest w url lm of
        (Inl err, tr) \<Rightarrow> tr
      | (Inr resp, tr) \<Rightarrow> if StatusCode resp \<noteq> 200 then tr else tr @ [ReadAll resp])"
  by (simp add: getLatestVersion_def Let_def split: prod.splits sum.splits)

lemma getLatestVersion_noClose: "BodyClose r \<notin> set (snd (getLatestVersion w url lm))"
proof -
  obtain x tr where mr: "makeRequest w url lm = (x, tr)"
    by (cases "makeRequest w url lm")
  from makeRequest_noClose [of r w url lm] mr have "BodyClose r \<notin> set tr" by simp
  then show ?thesis
    by (cases x) (simp_all add: getLatestVersion_trace mr)
qed

lemma processProduct_trace:
  "snd (processProduct w lm kp st) =
     (case asDict (Some (snd kp)) of
        None \<Rightarrow> []
      | Some productInfo \<Rightarrow>
          (case asDict (map_of productInfo ''Distributions'') of
             None \<Rightarrow> []
           | Some distributions \<Rightarrow>
               (case asString (map_of distributions ''English'') of
                  None \<Rightarrow> []
                | Some englishDistribution \<Rightarrow> snd (getLatestVersion w englishDistribution lm))))"
  by (simp add: processProduct_def split: prod.splits option.splits sum.splits)

lemma processProduct_noClose: "BodyClose r \<notin> set (snd (processProduct w lm kp st))"
  using getLatestVersion_noClose [of r w _ lm]
  by (simp add: processProduct_trace split: option.splits)

lemma productsLoop_noClose:
  "BodyClose r \<notin> set (snd acc) \<Longrightarrow> BodyClose r \<notin> set (snd (productsLoop w lm ps acc))"
proof (induction ps arbitrary: acc)
  case Nil
  then show ?case by simp
next
  case (Cons kp ps)
  obtain st tr where acc: "acc = (st, tr)" by (cases acc)
  obtain st' tr' where p: "processProduct w lm kp st = (st', tr')"
    by (cases "processProduct w lm kp st")
  from processProduct_noClose [of r w lm kp st] p have "BodyClose r \<notin> set tr'" by simp
  with Cons.prems acc have "BodyClose r \<notin> set (snd (st', tr @ tr'))" by simp
  from Cons.IH [OF this] show ?case by (simp add: acc p)
qed

lemma updateOSVersionsMapFromProductMap_noClose:
  "BodyClose r \<notin> set (snd (snd (updateOSVersionsMapFromProductMap w cat vi lm)))"
proof (cases "\<exists>c ps. cat = PDict c \<and> asDict (map_of c ''Products'') = Some ps")
  case True
  then obtain c ps where c: "cat = PDict c" "asDict (map_of c ''Products'') = Some ps" by blast
  from productsLoop_noClose [of r "((vi, False), [])" w lm ps]
  show ?thesis
    by (auto simp: updateOSVersionsMapFromProductMap_def c split: prod.splits)
next
  case False
  then show ?thesis
    by (cases cat) (auto simp: updateOSVersionsMapFromProductMap_def split: option.splits)
qed

lemma parseCatalogResponse_trace: "snd (parseCatalogResponse w resp) = [ReadAll resp]"
  by (simp add: parseCatalogResponse_def split: sum.splits)

lemma updateOSVersionsMap_noClose:
  "BodyClose r \<notin> set (snd (snd (updateOSVersionsMap w url t)))"
proof (cases "osVersionsMap t OSTypeMac")
  case None
  then show ?thesis by (simp add: updateOSVersionsMap_def)
next
  case (Some vm)
  obtain x tr where mr: "makeRequest w url (LastModified vm) = (x, tr)"
    by (cases "makeRequest w url (LastModified vm)")
  from makeRequest_noClose [of r w url "LastModified vm"] mr have tr: "BodyClose r \<notin> set tr"
    by simp
  show ?thesis
  proof (cases x)
    case (Inl err)
    with tr show ?thesis by (simp add: updateOSVersionsMap_def Some mr)
  next
    case (Inr resp)
    obtain y tr2 where pc: "parseCatalogResponse w resp = (y, tr2)"
      by (cases "parseCatalogResponse w resp")
    from parseCatalogResponse_trace [of w resp] pc have tr2: "tr2 = [ReadAll resp]" by simp
    show ?thesis
    proof (cases y)
      case (Inl err)
      with tr tr2 show ?thesis by (simp add: updateOSVersionsMap_def Some mr Inr pc)
    next
      case (Inr productMap)
      obtain r3 vi3 tr3 where
        up: "updateOSVersionsMapFromProductMap w productMap vm (LastModified vm) = (r3, vi3, tr3)"
        by (cases "updateOSVersionsMapFromProductMap w productMap vm (LastModified vm)")
      from updateOSVersionsMapFromProductMap_noClose [of r w productMap vm "LastModified vm"] up
      have "BodyClose r \<notin> set tr3" by simp
      with tr tr2 show ?thesis
        by (simp add: updateOSVersionsMap_def Some mr \<open>x = Inr resp\<close> pc Inr up)
    qed
  qed
qed

lemma updateOSVersionsMap_reads_catalog:
  assumes "osVersionsMap t OSTypeMac = Some info"
    and "makeRequest w url (LastModified info) = (Inr resp, tr)"
    and "StatusCode resp = 200"
  shows "\<exists>rest. snd (snd (updateOSVersionsMap w url t)) = tr @ ReadAll resp # rest"
proof -
  obtain y tr2 where pc: "parseCatalogResponse w resp = (y, tr2)"
    by (cases "parseCatalogResponse w resp")
  from parseCatalogResponse_trace [of w resp] pc have tr2: "tr2 = [ReadAll resp]" by simp
  show ?thesis
  proof (cases y)
    case (Inl err)
    then show ?thesis by (simp add: updateOSVersionsMap_def assms pc tr2)
  next
    case (Inr productMap)
    obtain r3 vi3 tr3 where
      up: "updateOSVersionsMapFromProductMap w productMap info (LastModified info) = (r3, vi3, tr3)"
      by (cases "updateOSVersionsMapFromProductMap w productMap info (LastModified info)")
    show ?thesis by (simp add: updateOSVersionsMap_def assms pc tr2 Inr up)
  qed
qed

lemma scrapeCatalogs_noClose:
  "BodyClose r \<notin> set (snd acc) \<Longrightarrow> BodyClose r \<notin> set (snd (snd (scrapeCatalogs w cs acc)))"
proof (induction cs arbitrary: acc)
  case Nil
  then show ?case by (cases acc) simp
next
  case (Cons c cs)
  obtain name url where c: "c = (name, url)" by (cases c)
  obtain t tr where acc: "acc = (t, tr)" by (cases acc)
  obtain x t' tr' where s: "scrapeForMacVersions w (catalogURL @ url) t = (x, t', tr')"
    by (cases "scrapeForMacVersions w (catalogURL @ url) t")
  have "tr' = snd (snd (updateOSVersionsMap w (catalogURL @ url) t))"
    using s by (auto simp: scrapeForMacVersions_def split: prod.splits sum.splits)
  with updateOSVersionsMap_noClose [of r w "catalogURL @ url" t] have "BodyClose r \<notin> set tr'"
    by simp
  with Cons.prems acc have tr: "BodyClose r \<notin> set (snd (t', tr @ tr'))" by simp
  show ?case
  proof (cases "panicOf x")
    case (Some msg)
    with tr show ?thesis by (simp add: c acc s)
  next
    case None
    with Cons.IH [OF tr] show ?thesis by (simp add: c acc s)
  qed
qed

section \<open>The scheduler and its scrape cycles\<close>

lemma updateOSVersionsMap_interval: "interval (fst (snd (updateOSVersionsMap w url t))) = interval t"
  by (simp add: updateOSVersionsMap_def Let_def split: option.splits prod.splits sum.splits)

lemma scrapeCatalogs_interval: "interval (fst (snd (scrapeCatalogs w cs acc))) = interval (fst acc)"
proof (induction cs arbitrary: acc)
  case Nil
  then show ?case by (cases acc) simp
next
  case (Cons c cs)
  obtain name url where c: "c = (name, url)" by (cases c)
  obtain t tr where acc: "acc = (t, tr)" by (cases acc)
  obtain x t' tr' where s: "scrapeForMacVersions w (catalogURL @ url) t = (x, t', tr')"
    by (cases "scrapeForMacVersions w (catalogURL @ url) t")
  have "t' = fst (snd (updateOSVersionsMap w (catalogURL @ url) t))"
    using s by (auto simp: scrapeForMacVersions_def split: prod.splits sum.splits)
  then have i: "interval t' = interval t" by (simp add: updateOSVersionsMap_interval)
  show ?case
  proof (cases "panicOf x")
    case (Some msg)
    with i show ?thesis by (simp add: c acc s)
  next
    case None
    with Cons.IH [of "(t', tr @ tr')"] i show ?thesis by (simp add: c acc s)
  qed
qed

lemma ScrapeForMacVersions_interval: "interval (fst (snd (ScrapeForMacVersions w t))) = interval t"
  using scrapeCatalogs_interval [of w MacCatalogs "(t, [])"] by (simp add: ScrapeForMacVersions_def)

lemma selectLoop_ticks:
  "scrapesReturn ws t \<Longrightarrow>
   selectLoop (map TimerC ws @ sel) t =
     (case selectLoop sel (scrapeCycles ws t) of
        (calls, t', out) \<Rightarrow> (replicate (length ws) CallScrapeForMacVersions @ calls, t', out))"
proof (induction ws arbitrary: t)
  case Nil
  then show ?case by simp
next
  case (Cons w ws)
  obtain p t1 tr where s: "ScrapeForMacVersions w t = (p, t1, tr)"
    by (cases "ScrapeForMacVersions w t")
  from Cons.prems s have p: "p = None" and r: "scrapesReturn ws t1" by simp_all
  from Cons.IH [OF r] show ?case
    by (simp add: s p split: prod.splits)
qed

lemma mainLoop_first_call: "\<exists>calls. fst (mainLoop w t sel) = CallScrapeForMacVersions # calls"
  by (simp add: mainLoop_def split: prod.splits option.splits)

lemma ScrapeForMacVersions_one:
  "ScrapeForMacVersions w t =
     (case scrapeForMacVersions w (catalogURL @ snd (hd MacCatalogs)) t of
        (r, t', tr') \<Rightarrow> (panicOf r, t', tr'))"
  by (simp add: ScrapeForMacVersions_def MacCatalogs_def split: prod.splits option.splits)

section \<open>The store after a cycle\<close>

lemma joinLatest_mono:
  "m b = Some u \<Longrightarrow> \<exists>u'. joinLatest c m b = Some u' \<and> u \<le> u'"
  by (cases c) (auto simp: joinLatest_def)

lemma fold_joinLatest_mono:
  "m b = Some u \<Longrightarrow> \<exists>u'. fold (\<lambda>kp. joinLatest (f kp)) ps m b = Some u' \<and> u \<le> u'"
proof (induction ps arbitrary: m u)
  case Nil
  then show ?case by simp
next
  case (Cons kp ps)
  from joinLatest_mono [of m b u "f kp"] Cons.prems
  obtain u1 where 1: "joinLatest (f kp) m b = Some u1" "u \<le> u1" by blast
  from Cons.IH [of "joinLatest (f kp) m" u1] 1(1)
  obtain u2 where "fold (\<lambda>kp. joinLatest (f kp)) ps (joinLatest (f kp) m) b = Some u2" "u1 \<le> u2"
    by blast
  with 1 show ?case by auto
qed

lemma fold_joinLatest_stores:
  "kp \<in> set ps \<Longrightarrow> f kp = Some (b, v, now) \<Longrightarrow>
   \<exists>u. fold (\<lambda>kp. joinLatest (f kp)) ps m b = Some u \<and> v \<le> u"
proof (induction ps arbitrary: m)
  case Nil
  then show ?case by simp
next
  case (Cons x ps)
  show ?case
  proof (cases "x = kp")
    case True
    have "\<exists>u0. joinLatest (f kp) m b = Some u0 \<and> v \<le> u0"
      by (auto simp: joinLatest_def Cons.prems(2) split: option.splits)
    then obtain u0 where 0: "joinLatest (f kp) m b = Some u0" "v \<le> u0" by blast
    from fold_joinLatest_mono [of "joinLatest (f kp) m" b u0 f ps] 0(1)
    obtain u1 where "fold (\<lambda>kp. joinLatest (f kp)) ps (joinLatest (f kp) m) b = Some u1" "u0 \<le> u1"
      by blast
    with 0 True show ?thesis by auto
  next
    case False
    with Cons.prems have "kp \<in> set ps" by simp
    from Cons.IH [of "joinLatest (f x) m"] this Cons.prems(2) show ?thesis by simp
  qed
qed

lemma contribution_success:
  assumes "asDict (Some product) = Some productInfo"
    and "asDict (map_of productInfo ''Distributions'') = Some distributions"
    and "asString (map_of distributions ''English'') = Some englishDistribution"
    and "fst (getLatestVersion w englishDistribution lm) = Inr ver"
    and "ver \<noteq> []"
    and "NewVersion w ver = Inr v1"
    and "elCapitanMajor < v1"
  shows "contribution w lm (key, product) =
           Some (if highSierraMajor < v1 then versionNameHighSierra
                 else if sierraMajor < v1 then versionNameSierra
                 else versionNameElCapitan, v1, timeNow w key)"
  using assms by (simp add: contribution_def)

lemma cycle_store:
  assumes "asDict (map_of cat ''Products'') = Some ps"
  shows "LatestVersions (fst (snd (updateOSVersionsMapFromProductMap w (PDict cat) vi lm))) =
           fold (\<lambda>kp. joinLatest (contribution w lm kp)) ps (LatestVersions vi)"
proof -
  obtain vi' c tr where l: "productsLoop w lm ps ((vi, False), []) = ((vi', c), tr)"
    by (cases "productsLoop w lm ps ((vi, False), [])") auto
  from productsLoop_join [of w lm ps "((vi, False), [])"] l show ?thesis
    by (simp add: updateOSVersionsMapFromProductMap_def assms)
qed

section \<open>Cycles in the sample worlds\<close>

lemma sample_processProduct:
  "fst (processProduct sampleWorld lm (k1, sampleProduct ''hs'') st) =
     mergeLatest versionNameHighSierra (Version 10 13 6) 1000 st"
  "fst (processProduct sampleWorld lm (k2, sampleProduct ''down'') st) = st"
  "fst (processProduct sampleWorld lm (k3, sampleProduct ''ec'') st) =
     mergeLatest versionNameElCapitan (Version 10 11 6) 1000 st"
  "fst (processProduct sampleWorld lm (k4, sampleProduct ''yo'') st) = st"
  "fst (processProduct sampleWorld lm (k5, sampleProduct ''rec'') st) = st"
  "fst (processProduct sampleWorld lm (k6, sampleProduct ''nm'') st) = st"
  by (simp_all add: processProduct_def sampleProduct_def sample_hs sample_down sample_ec sample_yo
      sample_rec_version sample_nm_version sampleWorld_fields sampleNewVersion_def
      LessThan_def GreaterThan_def elCapitanMajor_def sierraMajor_def highSierraMajor_def)

lemma productsLoop_Cons_fst:
  "fst (productsLoop w lm (kp # ps) (st, tr)) =
     fst (productsLoop w lm ps (fst (processProduct w lm kp st), []))"
proof -
  obtain st' tr' where p: "processProduct w lm kp st = (st', tr')"
    by (cases "processProduct w lm kp st")
  from productsLoop_trace_irrelevant [of w lm ps st' "tr @ tr'" "[]"] show ?thesis
    by (simp add: p)
qed

lemma sample_loop:
  "fst (productsLoop sampleWorld lm sampleProducts (st, tr)) =
     mergeLatest versionNameElCapitan (Version 10 11 6) 1000
       (mergeLatest versionNameHighSierra (Version 10 13 6) 1000 st)"
  by (simp add: sampleProducts_def productsLoop_Cons_fst sample_processProduct del: productsLoop.simps(2))

lemma sample_loop_without_down:
  "fst (productsLoop sampleWorld lm
          ([(''091-39211'', sampleProduct ''hs'')] @
           [(''031-63178'', sampleProduct ''ec''), (''031-30888'', sampleProduct ''yo''),
            (''041-00001'', sampleProduct ''rec''), (''041-00002'', sampleProduct ''nm'')]) (st, tr)) =
     mergeLatest versionNameElCapitan (Version 10 11 6) 1000
       (mergeLatest versionNameHighSierra (Version 10 13 6) 1000 st)"
  by (simp add: productsLoop_Cons_fst sample_processProduct del: productsLoop.simps(2))

lemma sample_merges_empty:
  "mergeLatest versionNameElCapitan (Version 10 11 6) 1000
       (mergeLatest versionNameHighSierra (Version 10 13 6) 1000 (emptyInfo, False)) =
   (\<lparr>LatestVersions = [versionNameHighSierra \<mapsto> Version 10 13 6,
                         versionNameElCapitan \<mapsto> Version 10 11 6],
      LastModified = 1000\<rparr>, True)"
  by (simp add: mergeLatest_def emptyInfo_def versionNameHighSierra_def versionNameElCapitan_def)

lemma sample_cycle:
  "fst (updateOSVersionsMapFromProductMap sampleWorld sampleCatalog emptyInfo lm) = Inr True"
  "fst (snd (updateOSVersionsMapFromProductMap sampleWorld sampleCatalog emptyInfo lm)) =
     \<lparr>LatestVersions = [versionNameHighSierra \<mapsto> Version 10 13 6,
                         versionNameElCapitan \<mapsto> Version 10 11 6],
      LastModified = 1000\<rparr>"
proof -
  obtain st tr where l: "productsLoop sampleWorld lm sampleProducts ((emptyInfo, False), []) = (st, tr)"
    by (cases "productsLoop sampleWorld lm sampleProducts ((emptyInfo, False), [])")
  from sample_loop [of lm "(emptyInfo, False)" "[]"] l sample_merges_empty
  have "st = (\<lparr>LatestVersions = [versionNameHighSierra \<mapsto> Version 10 13 6,
                         versionNameElCapitan \<mapsto> Version 10 11 6],
      LastModified = 1000\<rparr>, True)" by simp
  then show "fst (updateOSVersionsMapFromProductMap sampleWorld sampleCatalog emptyInfo lm) = Inr True"
    and "fst (snd (updateOSVersionsMapFromProductMap sampleWorld sampleCatalog emptyInfo lm)) =
     \<lparr>LatestVersions = [versionNameHighSierra \<mapsto> Version 10 13 6,
                         versionNameElCapitan \<mapsto> Version 10 11 6],
      LastModified = 1000\<rparr>"
    by (simp_all add: updateOSVersionsMapFromProductMap_def sampleCatalog_def l)
qed

lemma sample_catalog_request:
  "makeRequest sampleWorld (catalogURL @ snd (hd MacCatalogs)) lm =
     (Inr \<lparr>StatusCode = 200, Body = Inr ''plist''\<rparr>,
      [ClientDo (sampleRequest (catalogURL @ snd (hd MacCatalogs)))])"
  by (simp add: makeRequest_def sampleWorld_def sampleResponse_def sampleRequest_def)

lemma sample_parse:
  "parseCatalogResponse sampleWorld \<lparr>StatusCode = 200, Body = Inr ''plist''\<rparr> =
     (Inr sampleCatalog, [ReadAll \<lparr>StatusCode = 200, Body = Inr ''plist''\<rparr>])"
  by (simp add: parseCatalogResponse_def sampleWorld_def)

lemma sample_cycle_any:
  "fst (updateOSVersionsMapFromProductMap sampleWorld sampleCatalog vi lm) =
     Inr (snd (mergeLatest versionNameElCapitan (Version 10 11 6) 1000
            (mergeLatest versionNameHighSierra (Version 10 13 6) 1000 (vi, False))))"
  "fst (snd (updateOSVersionsMapFromProductMap sampleWorld sampleCatalog vi lm)) =
     fst (mergeLatest versionNameElCapitan (Version 10 11 6) 1000
            (mergeLatest versionNameHighSierra (Version 10 13 6) 1000 (vi, False)))"
proof -
  obtain vi' c tr where l: "productsLoop sampleWorld lm sampleProducts ((vi, False), []) = ((vi', c), tr)"
    by (cases "productsLoop sampleWorld lm sampleProducts ((vi, False), [])") auto
  from sample_loop [of lm "(vi, False)" "[]"] l
  have "mergeLatest versionNameElCapitan (Version 10 11 6) 1000
            (mergeLatest versionNameHighSierra (Version 10 13 6) 1000 (vi, False)) = (vi', c)"
    by simp
  then show "fst (updateOSVersionsMapFromProductMap sampleWorld sampleCatalog vi lm) =
     Inr (snd (mergeLatest versionNameElCapitan (Version 10 11 6) 1000
            (mergeLatest versionNameHighSierra (Version 10 13 6) 1000 (vi, False))))"
    and "fst (snd (updateOSVersionsMapFromProductMap sampleWorld sampleCatalog vi lm)) =
     fst (mergeLatest versionNameElCapitan (Version 10 11 6) 1000
            (mergeLatest versionNameHighSierra (Version 10 13 6) 1000 (vi, False)))"
    by (simp_all add: updateOSVersionsMapFromProductMap_def sampleCatalog_def l)
qed

lemma sample_scrape:
  assumes "osVersionsMap t OSTypeMac = Some vi"
  shows "fst (ScrapeForMacVersions sampleWorld t) = None"
    and "fst (snd (ScrapeForMacVersions sampleWorld t)) =
           t\<lparr>osVersionsMap := (osVersionsMap t)(OSTypeMac \<mapsto>
               fst (mergeLatest versionNameElCapitan (Version 10 11 6) 1000
                      (mergeLatest versionNameHighSierra (Version 10 13 6) 1000 (vi, False))))\<rparr>"
proof -
  obtain r vi' tr where
    u: "updateOSVersionsMapFromProductMap sampleWorld sampleCatalog vi (LastModified vi) = (r, vi', tr)"
    by (cases "updateOSVersionsMapFromProductMap sampleWorld sampleCatalog vi (LastModified vi)")
  from sample_cycle_any [of vi "LastModified vi"] u
  have r: "r = Inr (snd (mergeLatest versionNameElCapitan (Version 10 11 6) 1000
            (mergeLatest versionNameHighSierra (Version 10 13 6) 1000 (vi, False))))"
    and v: "vi' = fst (mergeLatest versionNameElCapitan (Version 10 11 6) 1000
            (mergeLatest versionNameHighSierra (Version 10 13 6) 1000 (vi, False)))"
    by simp_all
  have s: "scrapeForMacVersions sampleWorld (catalogURL @ snd (hd MacCatalogs)) t =
      (None, t\<lparr>osVersionsMap := (osVersionsMap t)(OSTypeMac \<mapsto> vi')\<rparr>,
       [ClientDo (sampleRequest (catalogURL @ snd (hd MacCatalogs)))] @
       [ReadAll \<lparr>StatusCode = 200, Body = Inr ''plist''\<rparr>] @ tr)"
    by (simp add: scrapeForMacVersions_def updateOSVersionsMap_def assms sample_catalog_request
        sample_parse u r)
  have "ScrapeForMacVersions sampleWorld t =
      (None, t\<lparr>osVersionsMap := (osVersionsMap t)(OSTypeMac \<mapsto> vi')\<rparr>,
       [ClientDo (sampleRequest (catalogURL @ snd (hd MacCatalogs)))] @
       [ReadAll \<lparr>StatusCode = 200, Body = Inr ''plist''\<rparr>] @ tr)"
    by (simp add: ScrapeForMacVersions_one s)
  then show "fst (ScrapeForMacVersions sampleWorld t) = None"
    and "fst (snd (ScrapeForMacVersions sampleWorld t)) =
           t\<lparr>osVersionsMap := (osVersionsMap t)(OSTypeMac \<mapsto>
               fst (mergeLatest versionNameElCapitan (Version 10 11 6) 1000
                      (mergeLatest versionNameHighSierra (Version 10 13 6) 1000 (vi, False))))\<rparr>"
    by (simp_all add: v)
qed

lemma sample_merges_again:
  "fst (mergeLatest versionNameElCapitan (Version 10 11 6) 1000
          (mergeLatest versionNameHighSierra (Version 10 13 6) 1000
             (\<lparr>LatestVersions = [versionNameHighSierra \<mapsto> Version 10 13 6,
                                   versionNameElCapitan \<mapsto> Version 10 11 6],
                LastModified = 1000\<rparr>, False))) =
   \<lparr>LatestVersions = [versionNameHighSierra \<mapsto> Version 10 13 6,
                        versionNameElCapitan \<mapsto> Version 10 11 6],
     LastModified = 1000\<rparr>"
  by (simp add: mergeLatest_def GreaterThan_def versionNameHighSierra_def versionNameElCapitan_def)

lemma sample_first_cycle:
  "fst (ScrapeForMacVersions sampleWorld (MakeTracker i)) = None"
  "osVersionsMap (fst (snd (ScrapeForMacVersions sampleWorld (MakeTracker i)))) OSTypeMac =
     Some \<lparr>LatestVersions = [versionNameHighSierra \<mapsto> Version 10 13 6,
                              versionNameElCapitan \<mapsto> Version 10 11 6],
           LastModified = 1000\<rparr>"
proof -
  have a: "osVersionsMap (MakeTracker i) OSTypeMac = Some emptyInfo"
    by (simp add: MakeTracker_def emptyInfo_def OSTypeMac_def OSTypeWindows_def OSTypeLinux_def)
  from sample_scrape [OF a] sample_merges_empty
  show "fst (ScrapeForMacVersions sampleWorld (MakeTracker i)) = None"
    and "osVersionsMap (fst (snd (ScrapeForMacVersions sampleWorld (MakeTracker i)))) OSTypeMac =
     Some \<lparr>LatestVersions = [versionNameHighSierra \<mapsto> Version 10 13 6,
                              versionNameElCapitan \<mapsto> Version 10 11 6],
           LastModified = 1000\<rparr>"
    by simp_all
qed

lemma sample_second_cycle:
  assumes "osVersionsMap t OSTypeMac =
     Some \<lparr>LatestVersions = [versionNameHighSierra \<mapsto> Version 10 13 6,
                              versionNameElCapitan \<mapsto> Version 10 11 6],
           LastModified = 1000\<rparr>"
  shows "fst (ScrapeForMacVersions sampleWorld t) = None"
    and "osVersionsMap (fst (snd (ScrapeForMacVersions sampleWorld t))) OSTypeMac =
     Some \<lparr>LatestVersions = [versionNameHighSierra \<mapsto> Version 10 13 6,
                              versionNameElCapitan \<mapsto> Version 10 11 6],
           LastModified = 1000\<rparr>"
  using sample_scrape [OF assms] sample_merges_again by simp_all

lemma quiet_scrape:
  "ScrapeForMacVersions quietWorld (MakeTracker i) =
     (None, MakeTracker i, [ClientDo (sampleRequest (catalogURL @ snd (hd MacCatalogs)))])"
proof -
  have a: "osVersionsMap (MakeTracker i) OSTypeMac = Some emptyInfo"
    by (simp add: MakeTracker_def emptyInfo_def OSTypeMac_def OSTypeWindows_def OSTypeLinux_def)
  have q: "makeRequest quietWorld url lm =
      (Inr \<lparr>StatusCode = 304, Body = Inr []\<rparr>, [ClientDo (sampleRequest url)])" for url lm
    by (simp add: makeRequest_def quietWorld_def sampleWorld_def sampleRequest_def)
  have s: "scrapeForMacVersions quietWorld url (MakeTracker i) =
      (None, MakeTracker i, [ClientDo (sampleRequest url)])" for url
    by (simp add: scrapeForMacVersions_def updateOSVersionsMap_def a q)
  show ?thesis
    by (simp add: ScrapeForMacVersions_one s)
qed

lemma broken_scrape:
  "fst (ScrapeForMacVersions brokenWorld (MakeTracker i)) =
     Some ''interface conversion: interface {} is not map[string]interface {}''"
proof -
  have a: "osVersionsMap (MakeTracker i) OSTypeMac = Some emptyInfo"
    by (simp add: MakeTracker_def emptyInfo_def OSTypeMac_def OSTypeWindows_def OSTypeLinux_def)
  have q: "makeRequest brokenWorld (catalogURL @ snd (hd MacCatalogs)) lm =
      (Inr \<lparr>StatusCode = 200, Body = Inr ''plist''\<rparr>,
       [ClientDo (sampleRequest (catalogURL @ snd (hd MacCatalogs)))])" for lm
    by (simp add: makeRequest_def brokenWorld_def sampleWorld_def sampleResponse_def sampleRequest_def)
  have p: "parseCatalogResponse brokenWorld \<lparr>StatusCode = 200, Body = Inr ''plist''\<rparr> =
      (Inr (PArray []), [ReadAll \<lparr>StatusCode = 200, Body = Inr ''plist''\<rparr>])"
    by (simp add: parseCatalogResponse_def brokenWorld_def sampleWorld_def)
  have s: "fst (scrapeForMacVersions brokenWorld (catalogURL @ snd (hd MacCatalogs)) (MakeTracker i)) =
      Some (Panic ''interface conversion: interface {} is not map[string]interface {}'')"
    by (simp add: scrapeForMacVersions_def updateOSVersionsMap_def a q p
        updateOSVersionsMapFromProductMap_def)
  show ?thesis
    using s by (auto simp: ScrapeForMacVersions_one split: prod.splits)
qed

section \<open>The claims\<close>

text \<open>
  C1. A merge of a candidate version for a branch replaces the stored version only if the
  candidate is strictly greater than it, an absent entry counting as the minimum; so
  across any sequence of scrape cycles the version stored for a branch never decreases.
\<close>

theorem C1_latest_never_decreases:
  "LatestVersions (fst (mergeLatest b v now (vi, c))) b =
     (case LatestVersions vi b of
        None \<Rightarrow> Some v
      | Some u \<Rightarrow> if u < v then Some v else Some u)
   \<and> (osVersionsMap t os = Some info \<and> LatestVersions info n = Some u \<longrightarrow>
        (\<exists>info' u'. osVersionsMap (scrapeCycles ws t) os = Some info'
           \<and> LatestVersions info' n = Some u' \<and> u \<le> u'))"
proof
  show "LatestVersions (fst (mergeLatest b v now (vi, c))) b =
     (case LatestVersions vi b of
        None \<Rightarrow> Some v
      | Some u \<Rightarrow> if u < v then Some v else Some u)"
    by (simp add: mergeLatest_cases split: option.splits)
next
  show "osVersionsMap t os = Some info \<and> LatestVersions info n = Some u \<longrightarrow>
        (\<exists>info' u'. osVersionsMap (scrapeCycles ws t) os = Some info'
           \<and> LatestVersions info' n = Some u' \<and> u \<le> u')"
    using scrapeCycles_mono [of t os info n u ws] by blast
qed

theorem C1_witness:
  "osVersionsMap sampleTracker OSTypeMac =
     Some \<lparr>LatestVersions = [versionNameHighSierra \<mapsto> Version 10 13 4,
                              versionNameElCapitan \<mapsto> Version 10 11 6],
           LastModified = 500\<rparr>
   \<and> LatestVersions \<lparr>LatestVersions = [versionNameHighSierra \<mapsto> Version 10 13 4,
                                        versionNameElCapitan \<mapsto> Version 10 11 6],
                      LastModified = 500\<rparr> versionNameHighSierra = Some (Version 10 13 4)
   \<and> (\<exists>info' u'. osVersionsMap (scrapeCycles [sampleWorld, sampleWorld] sampleTracker) OSTypeMac = Some info'
         \<and> LatestVersions info' versionNameHighSierra = Some u' \<and> Version 10 13 4 \<le> u')"
  using C1_latest_never_decreases [of _ _ _ _ _ sampleTracker OSTypeMac
      "\<lparr>LatestVersions = [versionNameHighSierra \<mapsto> Version 10 13 4,
                           versionNameElCapitan \<mapsto> Version 10 11 6],
        LastModified = 500\<rparr>" versionNameHighSierra "Version 10 13 4" "[sampleWorld, sampleWorld]"]
  by (simp add: sampleTracker_def versionNameHighSierra_def versionNameElCapitan_def)

text \<open>
  C2. Starting from a store with no entry for the branch, a sequence of merges for that
  branch leaves the maximum of the sequence in the store; the same versions merged in any
  other order give the same store, and merging them again changes nothing. The loop over
  the products, which visits them in the order \<open>range\<close> happens to take, stores the
  same versions in every order.
\<close>

theorem C2_merge_order_independent:
  assumes "LatestVersions vi b = None"
    and "vs \<noteq> []"
    and "mset (map fst vs') = mset (map fst vs)"
    and "mset ps' = mset ps"
  shows "LatestVersions (fst (mergeAll b vs (vi, c))) b = Some (Max (set (map fst vs)))
       \<and> LatestVersions (fst (mergeAll b vs' (vi, c))) = LatestVersions (fst (mergeAll b vs (vi, c)))
       \<and> LatestVersions (fst (mergeAll b (vs @ vs') (vi, c))) =
           LatestVersions (fst (mergeAll b vs (vi, c)))
       \<and> LatestVersions (fst (fst (productsLoop w lm ps' ((info, False), []))))
           = LatestVersions (fst (fst (productsLoop w lm ps ((info, False), []))))"
  using mergeAll_order_independent [OF assms(1-3)] productsLoop_order_independent [OF assms(4)]
  by simp

theorem C2_witness:
  "LatestVersions emptyInfo ''HighSierra'' = None
   \<and> [(Version 10 13 4, 10), (Version 10 13 6, 20), (Version 10 13 5, 30)] \<noteq> []
   \<and> mset (map fst [(Version 10 13 6, 7), (Version 10 13 5, 8), (Version 10 13 4, 9)])
       = mset (map fst [(Version 10 13 4, 10), (Version 10 13 6, 20), (Version 10 13 5, (30::int))])
   \<and> mset (rev sampleProducts) = mset sampleProducts
   \<and> LatestVersions (fst (fst (productsLoop sampleWorld 0 (rev sampleProducts) ((emptyInfo, False), []))))
       = LatestVersions (fst (fst (productsLoop sampleWorld 0 sampleProducts ((emptyInfo, False), []))))
   \<and> LatestVersions (fst (mergeAll ''HighSierra''
         [(Version 10 13 4, 10), (Version 10 13 6, 20), (Version 10 13 5, 30)] (emptyInfo, False)))
       ''HighSierra'' = Some (Version 10 13 6)
   \<and> LatestVersions (fst (mergeAll ''HighSierra''
         [(Version 10 13 6, 7), (Version 10 13 5, 8), (Version 10 13 4, 9)] (emptyInfo, False)))
       ''HighSierra'' = Some (Version 10 13 6)"
proof -
  have a: "LatestVersions emptyInfo ''HighSierra'' = None"
    by (simp add: emptyInfo_def)
  have b: "[(Version 10 13 4, 10), (Version 10 13 6, 20), (Version 10 13 5, (30::int))] \<noteq> []"
    by simp
  have c: "mset (map fst [(Version 10 13 6, 7), (Version 10 13 5, 8), (Version 10 13 4, (9::int))])
       = mset (map fst [(Version 10 13 4, 10), (Version 10 13 6, 20), (Version 10 13 5, (30::int))])"
    by (simp add: add.commute add.left_commute)
  have m: "Max (set (map fst [(Version 10 13 4, 10), (Version 10 13 6, 20), (Version 10 13 5, (30::int))]))
       = Version 10 13 6"
    by (simp add: max_def less_eq_Version_def)
  have d: "mset (rev sampleProducts) = mset sampleProducts"
    by simp
  from C2_merge_order_independent [OF a b c d, of False sampleWorld 0 emptyInfo] a b c d m
  show ?thesis
    by simp
qed

text \<open>
  C3. A merge of a candidate that is less than or equal to the version stored for the
  branch is a no-op: the flag \<open>changed\<close> is left as it was, and so are the entry of
  the branch and \<open>LastModified\<close>.
\<close>

theorem C3_merge_noop:
  "LatestVersions vi b = Some u \<Longrightarrow> v \<le> u \<Longrightarrow> mergeLatest b v now (vi, changed) = (vi, changed)"
  by (auto simp: mergeLatest_cases)

theorem C3_witness:
  "LatestVersions (emptyInfo\<lparr>LatestVersions := [versionNameHighSierra \<mapsto> Version 10 13 6]\<rparr>)
     versionNameHighSierra = Some (Version 10 13 6)
   \<and> Version 10 13 4 \<le> Version 10 13 6
   \<and> mergeLatest versionNameHighSierra (Version 10 13 4) 1000
        (emptyInfo\<lparr>LatestVersions := [versionNameHighSierra \<mapsto> Version 10 13 6]\<rparr>, False)
      = (emptyInfo\<lparr>LatestVersions := [versionNameHighSierra \<mapsto> Version 10 13 6]\<rparr>, False)"
proof -
  have a: "LatestVersions (emptyInfo\<lparr>LatestVersions := [versionNameHighSierra \<mapsto> Version 10 13 6]\<rparr>)
     versionNameHighSierra = Some (Version 10 13 6)"
    by simp
  have b: "Version 10 13 4 \<le> Version 10 13 6"
    by (simp add: less_eq_Version_def)
  show ?thesis
    using a b C3_merge_noop [OF a b, of 1000 False] by simp
qed

text \<open>
  C4. When the request for the catalog is answered with a status other than 200, the
  cycle makes no other request (the trace holds the catalog request alone), leaves the
  tracker as it was, and returns \<open>false\<close> with no error.
\<close>

theorem C4_not_modified:
  assumes "osVersionsMap t OSTypeMac = Some versionsInfo"
    and "makeRequest w url (LastModified versionsInfo) = (Inr resp, tr)"
    and "StatusCode resp \<noteq> 200"
  shows "updateOSVersionsMap w url t = (Inr False, t, tr)
       \<and> scrapeForMacVersions w url t = (None, t, tr)
       \<and> tr = [ClientDo \<lparr>Method = ''GET'', URL = url,
                          IfModifiedSince = Format w (LastModified versionsInfo)\<rparr>]"
proof -
  have u: "updateOSVersionsMap w url t = (Inr False, t, tr)"
    using assms by (simp add: updateOSVersionsMap_def)
  have "tr = [ClientDo \<lparr>Method = ''GET'', URL = url,
                          IfModifiedSince = Format w (LastModified versionsInfo)\<rparr>]"
    using assms(2) by (auto simp: makeRequest_def Let_def split: option.splits)
  with u show ?thesis by (simp add: scrapeForMacVersions_def)
qed

theorem C4_witness:
  "osVersionsMap sampleTracker OSTypeMac =
     Some \<lparr>LatestVersions = [versionNameHighSierra \<mapsto> Version 10 13 4,
                              versionNameElCapitan \<mapsto> Version 10 11 6],
           LastModified = 500\<rparr>
   \<and> makeRequest sampleWorld ''nm'' 500 =
       (Inr \<lparr>StatusCode = 304, Body = Inr []\<rparr>, [ClientDo (sampleRequest ''nm'')])
   \<and> StatusCode \<lparr>StatusCode = 304, Body = Inr []\<rparr> \<noteq> 200
   \<and> updateOSVersionsMap sampleWorld ''nm'' sampleTracker =
       (Inr False, sampleTracker, [ClientDo (sampleRequest ''nm'')])
   \<and> scrapeForMacVersions sampleWorld ''nm'' sampleTracker =
       (None, sampleTracker, [ClientDo (sampleRequest ''nm'')])"
proof -
  have a: "osVersionsMap sampleTracker OSTypeMac =
     Some \<lparr>LatestVersions = [versionNameHighSierra \<mapsto> Version 10 13 4,
                              versionNameElCapitan \<mapsto> Version 10 11 6],
           LastModified = 500\<rparr>"
    by (simp add: sampleTracker_def)
  have b: "makeRequest sampleWorld ''nm''
             (LastModified \<lparr>LatestVersions = [versionNameHighSierra \<mapsto> Version 10 13 4,
                              versionNameElCapitan \<mapsto> Version 10 11 6],
           LastModified = 500\<rparr>) =
       (Inr \<lparr>StatusCode = 304, Body = Inr []\<rparr>, [ClientDo (sampleRequest ''nm'')])"
    by (simp add: sample_nm)
  have c: "StatusCode \<lparr>StatusCode = 304, Body = Inr []\<rparr> \<noteq> 200"
    by simp
  from C4_not_modified [OF a b c] a b c show ?thesis by simp
qed

text \<open>
  C5. A product whose distribution cannot be fetched, or whose version cannot be
  extracted or parsed, leaves the store and the flag as they were, and the cycle goes on:
  the cycle over the catalog returns without error, with the result and the store of the
  cycle over the catalog without that product. The versions it stores are the ones the
  other products contribute, merged one after the other into the store it started from;
  so for every other product whose version is fetched, parsed and above 10.11.0, the
  branch of that version holds it or a greater one.
\<close>

theorem C5_branch_error_skipped:
  assumes "asDict (Some product) = Some productInfo"
    and "asDict (map_of productInfo ''Distributions'') = Some distributions"
    and "asString (map_of distributions ''English'') = Some englishDistribution"
    and "fst (getLatestVersion w englishDistribution lm) = Inl err
         \<or> (\<exists>ver. fst (getLatestVersion w englishDistribution lm) = Inr ver
                \<and> NewVersion w ver = Inl err)"
    and "asDict (map_of cat ''Products'') = Some (xs @ (key, product) # ys)"
    and "asDict (map_of cat' ''Products'') = Some (xs @ ys)"
  shows "fst (processProduct w lm (key, product) st) = st
       \<and> (\<exists>changed vi' tr tr'.
             updateOSVersionsMapFromProductMap w (PDict cat) vi lm = (Inr changed, vi', tr)
           \<and> updateOSVersionsMapFromProductMap w (PDict cat') vi lm = (Inr changed, vi', tr')
           \<and> LatestVersions vi' =
               fold (\<lambda>kp. joinLatest (contribution w lm kp)) (xs @ ys) (LatestVersions vi)
           \<and> (\<forall>key' product' productInfo' distributions' url' ver' v'.
                 (key', product') \<in> set (xs @ ys)
                 \<and> asDict (Some product') = Some productInfo'
                 \<and> asDict (map_of productInfo' ''Distributions'') = Some distributions'
                 \<and> asString (map_of distributions' ''English'') = Some url'
                 \<and> fst (getLatestVersion w url' lm) = Inr ver'
                 \<and> ver' \<noteq> []
                 \<and> NewVersion w ver' = Inr v'
                 \<and> elCapitanMajor < v'
                 \<longrightarrow> (\<exists>u. LatestVersions vi'
                             (if highSierraMajor < v' then versionNameHighSierra
                              else if sierraMajor < v' then versionNameSierra
                              else versionNameElCapitan) = Some u
                          \<and> v' \<le> u)))"
proof -
  have skip: "fst (processProduct w lm (key, product) st') = st'" for st'
    using assms(4) processProduct_fetch_error [OF assms(1-3)]
      processProduct_parse_error [OF assms(1-3)]
    by blast
  from cycle_without_product [of w lm "(key, product)" cat xs ys cat' vi] skip assms(5,6)
  obtain changed vi' tr tr' where
    r: "updateOSVersionsMapFromProductMap w (PDict cat) vi lm = (Inr changed, vi', tr)"
       "updateOSVersionsMapFromProductMap w (PDict cat') vi lm = (Inr changed, vi', tr')"
    by blast
  from cycle_store [OF assms(6), of w vi lm] r(2)
  have store: "LatestVersions vi' =
      fold (\<lambda>kp. joinLatest (contribution w lm kp)) (xs @ ys) (LatestVersions vi)"
    by simp
  have sib: "\<exists>u. LatestVersions vi'
                 (if highSierraMajor < v' then versionNameHighSierra
                  else if sierraMajor < v' then versionNameSierra
                  else versionNameElCapitan) = Some u \<and> v' \<le> u"
    if "(key', product') \<in> set (xs @ ys)"
      and "asDict (Some product') = Some productInfo'"
      and "asDict (map_of productInfo' ''Distributions'') = Some distributions'"
      and "asString (map_of distributions' ''English'') = Some url'"
      and "fst (getLatestVersion w url' lm) = Inr ver'"
      and "ver' \<noteq> []"
      and "NewVersion w ver' = Inr v'"
      and "elCapitanMajor < v'"
    for key' product' productInfo' distributions' url' ver' v'
    using fold_joinLatest_stores [of "(key', product')" "xs @ ys" "contribution w lm" _ v' _
        "LatestVersions vi"] that(1) contribution_success [OF that(2-8), of key']
    by (simp only: store)
  from skip r store sib show ?thesis by blast
qed

theorem C5_witness:
  "asDict (Some (sampleProduct ''down'')) =
     Some [(''ServerMetadataURL'', PString ''smd''), (''Distributions'', PDict [(''English'', PString ''down'')])]
   \<and> asDict (map_of [(''ServerMetadataURL'', PString ''smd''),
                   (''Distributions'', PDict [(''English'', PString ''down'')])] ''Distributions'') =
     Some [(''English'', PString ''down'')]
   \<and> asString (map_of [(''English'', PString ''down'')] ''English'') = Some ''down''
   \<and> fst (getLatestVersion sampleWorld ''down'' 0) = Inl (Error ''dial tcp: i/o timeout'')
   \<and> asDict (map_of [(''CatalogVersion'', PScalar 2), (''Products'', PDict sampleProducts)] ''Products'') =
     Some ([(''091-39211'', sampleProduct ''hs'')] @ (''091-22860'', sampleProduct ''down'') #
           [(''031-63178'', sampleProduct ''ec''), (''031-30888'', sampleProduct ''yo''),
            (''041-00001'', sampleProduct ''rec''), (''041-00002'', sampleProduct ''nm'')])
   \<and> asDict (map_of [(''Products'', PDict ([(''091-39211'', sampleProduct ''hs'')] @
           [(''031-63178'', sampleProduct ''ec''), (''031-30888'', sampleProduct ''yo''),
            (''041-00001'', sampleProduct ''rec''), (''041-00002'', sampleProduct ''nm'')]))] ''Products'') =
     Some ([(''091-39211'', sampleProduct ''hs'')] @
           [(''031-63178'', sampleProduct ''ec''), (''031-30888'', sampleProduct ''yo''),
            (''041-00001'', sampleProduct ''rec''), (''041-00002'', sampleProduct ''nm'')])
   \<and> fst (processProduct sampleWorld 0 (''091-22860'', sampleProduct ''down'') (emptyInfo, False)) =
       (emptyInfo, False)
   \<and> fst (updateOSVersionsMapFromProductMap sampleWorld
           (PDict [(''CatalogVersion'', PScalar 2), (''Products'', PDict sampleProducts)]) emptyInfo 0) =
       Inr True
   \<and> fst (snd (updateOSVersionsMapFromProductMap sampleWorld
           (PDict [(''CatalogVersion'', PScalar 2), (''Products'', PDict sampleProducts)]) emptyInfo 0)) =
       \<lparr>LatestVersions = [versionNameHighSierra \<mapsto> Version 10 13 6,
                            versionNameElCapitan \<mapsto> Version 10 11 6],
         LastModified = 1000\<rparr>
   \<and> fst (updateOSVersionsMapFromProductMap sampleWorld
           (PDict [(''Products'', PDict ([(''091-39211'', sampleProduct ''hs'')] @
              [(''031-63178'', sampleProduct ''ec''), (''031-30888'', sampleProduct ''yo''),
               (''041-00001'', sampleProduct ''rec''), (''041-00002'', sampleProduct ''nm'')]))]) emptyInfo 0) =
       Inr True
   \<and> fst (snd (updateOSVersionsMapFromProductMap sampleWorld
           (PDict [(''Products'', PDict ([(''091-39211'', sampleProduct ''hs'')] @
              [(''031-63178'', sampleProduct ''ec''), (''031-30888'', sampleProduct ''yo''),
               (''041-00001'', sampleProduct ''rec''), (''041-00002'', sampleProduct ''nm'')]))]) emptyInfo 0)) =
       \<lparr>LatestVersions = [versionNameHighSierra \<mapsto> Version 10 13 6,
                            versionNameElCapitan \<mapsto> Version 10 11 6],
         LastModified = 1000\<rparr>"
proof -
  have d: "fst (getLatestVersion sampleWorld ''down'' 0) = Inl (Error ''dial tcp: i/o timeout'')
         \<or> (\<exists>ver. fst (getLatestVersion sampleWorld ''down'' 0) = Inr ver
                \<and> NewVersion sampleWorld ver = Inl (Error ''dial tcp: i/o timeout''))"
    by (simp add: sample_down)
  have f: "asDict (map_of [(''Products'', PDict ([(''091-39211'', sampleProduct ''hs'')] @
           [(''031-63178'', sampleProduct ''ec''), (''031-30888'', sampleProduct ''yo''),
            (''041-00001'', sampleProduct ''rec''), (''041-00002'', sampleProduct ''nm'')]))] ''Products'') =
     Some ([(''091-39211'', sampleProduct ''hs'')] @
           [(''031-63178'', sampleProduct ''ec''), (''031-30888'', sampleProduct ''yo''),
            (''041-00001'', sampleProduct ''rec''), (''041-00002'', sampleProduct ''nm'')])"
    by simp
  have c: "fst (updateOSVersionsMapFromProductMap sampleWorld
           (PDict [(''CatalogVersion'', PScalar 2), (''Products'', PDict sampleProducts)]) emptyInfo 0) =
       Inr True"
    "fst (snd (updateOSVersionsMapFromProductMap sampleWorld
           (PDict [(''CatalogVersion'', PScalar 2), (''Products'', PDict sampleProducts)]) emptyInfo 0)) =
       \<lparr>LatestVersions = [versionNameHighSierra \<mapsto> Version 10 13 6,
                            versionNameElCapitan \<mapsto> Version 10 11 6],
         LastModified = 1000\<rparr>"
    using sample_cycle [of 0] by (simp_all add: sampleCatalog_def)
  from C5_branch_error_skipped [OF sampleProduct_parts d sampleCatalog_split(1) f,
      of "(emptyInfo, False)" emptyInfo]
  obtain changed vi' tr tr' where
    r: "updateOSVersionsMapFromProductMap sampleWorld
           (PDict [(''CatalogVersion'', PScalar 2), (''Products'', PDict sampleProducts)]) emptyInfo 0 =
           (Inr changed, vi', tr)"
       "updateOSVersionsMapFromProductMap sampleWorld
           (PDict [(''Products'', PDict ([(''091-39211'', sampleProduct ''hs'')] @
              [(''031-63178'', sampleProduct ''ec''), (''031-30888'', sampleProduct ''yo''),
               (''041-00001'', sampleProduct ''rec''), (''041-00002'', sampleProduct ''nm'')]))]) emptyInfo 0 =
           (Inr changed, vi', tr')"
    and p: "fst (processProduct sampleWorld 0 (''091-22860'', sampleProduct ''down'') (emptyInfo, False)) =
       (emptyInfo, False)"
    by blast
  from c r have "changed = True" "vi' = \<lparr>LatestVersions = [versionNameHighSierra \<mapsto> Version 10 13 6,
                            versionNameElCapitan \<mapsto> Version 10 11 6],
         LastModified = 1000\<rparr>"
    by simp_all
  with r p c sampleProduct_parts [of "''down''"] sampleCatalog_split(1) f
  show ?thesis by (simp add: sample_down)
qed

text \<open>
  C6. A product whose version parses to a value strictly below 10.11.0 is skipped: its
  iteration leaves the store and the flag as they were, and the cycle returns without
  error, with the result and the store of the cycle over the catalog without that product.
  After the cycle that version is stored for a branch only if it was stored there before.
\<close>

theorem C6_below_threshold_skipped:
  assumes "asDict (Some product) = Some productInfo"
    and "asDict (map_of productInfo ''Distributions'') = Some distributions"
    and "asString (map_of distributions ''English'') = Some englishDistribution"
    and "fst (getLatestVersion w englishDistribution lm) = Inr ver"
    and "NewVersion w ver = Inr v1"
    and "v1 < Version 10 11 0"
    and "asDict (map_of cat ''Products'') = Some (xs @ (key, product) # ys)"
    and "asDict (map_of cat' ''Products'') = Some (xs @ ys)"
  shows "fst (processProduct w lm (key, product) st) = st
       \<and> (\<exists>changed vi' tr tr'.
             updateOSVersionsMapFromProductMap w (PDict cat) vi lm = (Inr changed, vi', tr)
           \<and> updateOSVersionsMapFromProductMap w (PDict cat') vi lm = (Inr changed, vi', tr')
           \<and> (\<forall>n. LatestVersions vi' n = Some v1 \<longrightarrow> LatestVersions vi n = Some v1))"
proof -
  have le: "v1 \<le> elCapitanMajor"
    using assms(6) by (simp add: elCapitanMajor_def)
  then have skip: "fst (processProduct w lm (key, product) st') = st'" for st'
    using processProduct_not_classified [OF assms(1-5)] by blast
  from cycle_without_product [of w lm "(key, product)" cat xs ys cat' vi] skip assms(7,8)
  obtain changed vi' tr tr' where
    r: "updateOSVersionsMapFromProductMap w (PDict cat) vi lm = (Inr changed, vi', tr)"
       "updateOSVersionsMapFromProductMap w (PDict cat') vi lm = (Inr changed, vi', tr')"
    by blast
  have "LatestVersions vi n = Some v1" if "LatestVersions vi' n = Some v1" for n
    using cycle_stores_tracked [of w "PDict cat" vi lm n v1] r(1) that le by auto
  with r skip show ?thesis by simp
qed

theorem C6_witness:
  "asDict (Some (sampleProduct ''yo'')) =
     Some [(''ServerMetadataURL'', PString ''smd''), (''Distributions'', PDict [(''English'', PString ''yo'')])]
   \<and> asDict (map_of [(''ServerMetadataURL'', PString ''smd''),
                   (''Distributions'', PDict [(''English'', PString ''yo'')])] ''Distributions'') =
     Some [(''English'', PString ''yo'')]
   \<and> asString (map_of [(''English'', PString ''yo'')] ''English'') = Some ''yo''
   \<and> fst (getLatestVersion sampleWorld ''yo'' 0) = Inr ''10.10.5''
   \<and> NewVersion sampleWorld ''10.10.5'' = Inr (Version 10 10 5)
   \<and> Version 10 10 5 < Version 10 11 0
   \<and> asDict (map_of [(''CatalogVersion'', PScalar 2), (''Products'', PDict sampleProducts)] ''Products'') =
     Some ([(''091-39211'', sampleProduct ''hs''), (''091-22860'', sampleProduct ''down''),
            (''031-63178'', sampleProduct ''ec'')] @ (''031-30888'', sampleProduct ''yo'') #
           [(''041-00001'', sampleProduct ''rec''), (''041-00002'', sampleProduct ''nm'')])
   \<and> asDict (map_of [(''Products'', PDict ([(''091-39211'', sampleProduct ''hs''),
            (''091-22860'', sampleProduct ''down''), (''031-63178'', sampleProduct ''ec'')] @
           [(''041-00001'', sampleProduct ''rec''), (''041-00002'', sampleProduct ''nm'')]))] ''Products'') =
     Some ([(''091-39211'', sampleProduct ''hs''), (''091-22860'', sampleProduct ''down''),
            (''031-63178'', sampleProduct ''ec'')] @
           [(''041-00001'', sampleProduct ''rec''), (''041-00002'', sampleProduct ''nm'')])
   \<and> fst (processProduct sampleWorld 0 (''031-30888'', sampleProduct ''yo'') (emptyInfo, False)) =
       (emptyInfo, False)
   \<and> (\<exists>changed vi' tr tr'.
         updateOSVersionsMapFromProductMap sampleWorld
           (PDict [(''CatalogVersion'', PScalar 2), (''Products'', PDict sampleProducts)]) emptyInfo 0 =
           (Inr changed, vi', tr)
       \<and> updateOSVersionsMapFromProductMap sampleWorld
           (PDict [(''Products'', PDict ([(''091-39211'', sampleProduct ''hs''),
              (''091-22860'', sampleProduct ''down''), (''031-63178'', sampleProduct ''ec'')] @
              [(''041-00001'', sampleProduct ''rec''), (''041-00002'', sampleProduct ''nm'')]))]) emptyInfo 0 =
           (Inr changed, vi', tr')
       \<and> LatestVersions vi' versionNameElCapitan \<noteq> Some (Version 10 10 5))"
proof -
  have d: "fst (getLatestVersion sampleWorld ''yo'' 0) = Inr ''10.10.5''"
    by (simp add: sample_yo)
  have e: "NewVersion sampleWorld ''10.10.5'' = Inr (Version 10 10 5)"
    by (simp add: sampleWorld_fields sampleNewVersion_def)
  have l: "Version 10 10 5 < Version 10 11 0"
    by (simp add: less_Version_def)
  have f: "asDict (map_of [(''Products'', PDict ([(''091-39211'', sampleProduct ''hs''),
            (''091-22860'', sampleProduct ''down''), (''031-63178'', sampleProduct ''ec'')] @
           [(''041-00001'', sampleProduct ''rec''), (''041-00002'', sampleProduct ''nm'')]))] ''Products'') =
     Some ([(''091-39211'', sampleProduct ''hs''), (''091-22860'', sampleProduct ''down''),
            (''031-63178'', sampleProduct ''ec'')] @
           [(''041-00001'', sampleProduct ''rec''), (''041-00002'', sampleProduct ''nm'')])"
    by simp
  from C6_below_threshold_skipped [OF sampleProduct_parts d e l sampleCatalog_split(2) f,
      of "(emptyInfo, False)" emptyInfo]
    sampleProduct_parts [of "''yo''"] sampleCatalog_split(2) d e l f
  show ?thesis by (auto simp: emptyInfo_def)
qed

text \<open>
  C7, as amended. \<open>mainLoop\<close> first calls \<open>ScrapeForMacVersions\<close>, before the
  ticker exists. When the ticker duration is positive and no scrape cycle panics, it then
  calls \<open>ScrapeForMacVersions\<close> once for each tick that \<open>select\<close> takes, each
  cycle starting from the tracker the cycle before left, until \<open>select\<close> takes the
  cancellation, after which it stops the ticker and returns.
\<close>

theorem C7_immediate_then_per_tick:
  "(\<exists>calls. fst (mainLoop w t sel) = CallScrapeForMacVersions # calls)
   \<and> (0 < sint (tickerDuration (interval t)) \<and> scrapesReturn (w # ws) t \<longrightarrow>
        mainLoop w t (map TimerC ws @ CtxDone # rest) =
          (CallScrapeForMacVersions # CallNewTicker (tickerDuration (interval t)) #
           replicate (length ws) CallScrapeForMacVersions @ [CallTimerStop],
           scrapeCycles (w # ws) t, Returned)
      \<and> mainLoop w t (map TimerC ws) =
          (CallScrapeForMacVersions # CallNewTicker (tickerDuration (interval t)) #
           replicate (length ws) CallScrapeForMacVersions,
           scrapeCycles (w # ws) t, Waiting))"
proof -
  have "mainLoop w t (map TimerC ws @ CtxDone # rest) =
          (CallScrapeForMacVersions # CallNewTicker (tickerDuration (interval t)) #
           replicate (length ws) CallScrapeForMacVersions @ [CallTimerStop],
           scrapeCycles (w # ws) t, Returned)
      \<and> mainLoop w t (map TimerC ws) =
          (CallScrapeForMacVersions # CallNewTicker (tickerDuration (interval t)) #
           replicate (length ws) CallScrapeForMacVersions,
           scrapeCycles (w # ws) t, Waiting)"
    if d: "0 < sint (tickerDuration (interval t))" and r: "scrapesReturn (w # ws) t"
  proof -
    obtain p t1 tr where s: "ScrapeForMacVersions w t = (p, t1, tr)"
      by (cases "ScrapeForMacVersions w t")
    from r s have p: "p = None" and r1: "scrapesReturn ws t1" by simp_all
    from ScrapeForMacVersions_interval [of w t] s have i: "interval t1 = interval t" by simp
    from selectLoop_ticks [OF r1, of "CtxDone # rest"] selectLoop_ticks [OF r1, of "[]"] d
    show ?thesis by (simp add: mainLoop_def s p i)
  qed
  with mainLoop_first_call [of w t sel] show ?thesis by blast
qed

theorem C7_witness:
  "0 < sint (tickerDuration (interval (MakeTracker 300)))
   \<and> scrapesReturn [sampleWorld, sampleWorld] (MakeTracker 300)
   \<and> mainLoop sampleWorld (MakeTracker 300) [TimerC sampleWorld, CtxDone, TimerC sampleWorld] =
       ([CallScrapeForMacVersions, CallNewTicker 300000000000, CallScrapeForMacVersions,
         CallTimerStop],
        scrapeCycles [sampleWorld, sampleWorld] (MakeTracker 300), Returned)
   \<and> ReadVersions (scrapeCycles [sampleWorld, sampleWorld] (MakeTracker 300)) OSTypeMac =
       Some \<lparr>LatestVersions = [versionNameHighSierra \<mapsto> Version 10 13 6,
                                versionNameElCapitan \<mapsto> Version 10 11 6],
             LastModified = 1000\<rparr>"
proof -
  have a: "0 < sint (tickerDuration (interval (MakeTracker 300)))"
    by (simp add: tickerDuration_def MakeTracker_def)
  have d: "tickerDuration (interval (MakeTracker 300)) = 300000000000"
    by (simp add: tickerDuration_def MakeTracker_def)
  have b: "scrapesReturn [sampleWorld, sampleWorld] (MakeTracker 300)"
    using sample_first_cycle [of 300] sample_second_cycle(1) [OF sample_first_cycle(2) [of 300]]
    by simp
  have c: "ReadVersions (scrapeCycles [sampleWorld, sampleWorld] (MakeTracker 300)) OSTypeMac =
       Some \<lparr>LatestVersions = [versionNameHighSierra \<mapsto> Version 10 13 6,
                                versionNameElCapitan \<mapsto> Version 10 11 6],
             LastModified = 1000\<rparr>"
    using sample_second_cycle(2) [OF sample_first_cycle(2) [of 300]]
    by (simp add: ReadVersions_def)
  from C7_immediate_then_per_tick [of sampleWorld "MakeTracker 300" _ "[sampleWorld]" "[TimerC sampleWorld]"]
    a b c
  show ?thesis by (simp add: d)
qed

theorem C7_counterexample:
  "fst (mainLoop quietWorld (MakeTracker 0) [TimerC quietWorld, TimerC quietWorld, CtxDone]) =
     [CallScrapeForMacVersions]
   \<and> snd (snd (mainLoop quietWorld (MakeTracker 0) [TimerC quietWorld, TimerC quietWorld, CtxDone])) =
       Crashed ''non-positive interval for NewTicker''
   \<and> fst (mainLoop brokenWorld (MakeTracker 300) [TimerC brokenWorld, TimerC brokenWorld, CtxDone]) =
       [CallScrapeForMacVersions]
   \<and> snd (snd (mainLoop brokenWorld (MakeTracker 300) [TimerC brokenWorld, TimerC brokenWorld, CtxDone])) =
       Crashed ''interface conversion: interface {} is not map[string]interface {}''"
proof -
  have z: "sint (tickerDuration (interval (MakeTracker 0))) \<le> 0"
    by (simp add: tickerDuration_def MakeTracker_def)
  have q: "mainLoop quietWorld (MakeTracker 0) sel =
      ([CallScrapeForMacVersions], MakeTracker 0, Crashed ''non-positive interval for NewTicker'')" for sel
    using z by (simp add: mainLoop_def quiet_scrape)
  obtain t' tr where b: "ScrapeForMacVersions brokenWorld (MakeTracker 300) =
      (Some ''interface conversion: interface {} is not map[string]interface {}'', t', tr)"
    using broken_scrape [of 300] by (cases "ScrapeForMacVersions brokenWorld (MakeTracker 300)") auto
  have "mainLoop brokenWorld (MakeTracker 300) sel =
      ([CallScrapeForMacVersions], t',
       Crashed ''interface conversion: interface {} is not map[string]interface {}'')" for sel
    by (simp add: mainLoop_def b)
  with q show ?thesis by simp
qed

text \<open>
  C8, as amended. A fetch answered with status 200 reads the body of the response with
  \<open>ReadAll\<close> as its last action on the network before it returns, and the cycle
  reads the body of the catalog right after a request for it answered with 200; no path
  of the scraper closes the body of a response.
\<close>

theorem C8_body_read_never_closed:
  "BodyClose r \<notin> set (snd (getLatestVersion w url lm))
   \<and> BodyClose r \<notin> set (snd (parseCatalogResponse w resp))
   \<and> BodyClose r \<notin> set (snd (snd (ScrapeForMacVersions w t)))
   \<and> (makeRequest w url lm = (Inr resp, tr) \<and> StatusCode resp = 200 \<longrightarrow>
        snd (getLatestVersion w url lm) = tr @ [ReadAll resp])
   \<and> snd (parseCatalogResponse w resp) = [ReadAll resp]
   \<and> (osVersionsMap t OSTypeMac = Some info
        \<and> makeRequest w catalog (LastModified info) = (Inr resp', tr') \<and> StatusCode resp' = 200 \<longrightarrow>
        (\<exists>rest. snd (snd (updateOSVersionsMap w catalog t)) = tr' @ ReadAll resp' # rest))"
proof -
  have "BodyClose r \<notin> set (snd (snd (ScrapeForMacVersions w t)))"
    using scrapeCatalogs_noClose [of r "(t, [])" w MacCatalogs]
    by (simp add: ScrapeForMacVersions_def)
  moreover have "makeRequest w url lm = (Inr resp, tr) \<and> StatusCode resp = 200 \<longrightarrow>
        snd (getLatestVersion w url lm) = tr @ [ReadAll resp]"
    by (simp add: getLatestVersion_trace)
  moreover have "osVersionsMap t OSTypeMac = Some info
        \<and> makeRequest w catalog (LastModified info) = (Inr resp', tr') \<and> StatusCode resp' = 200 \<longrightarrow>
        (\<exists>rest. snd (snd (updateOSVersionsMap w catalog t)) = tr' @ ReadAll resp' # rest)"
    using updateOSVersionsMap_reads_catalog [of t info w catalog resp' tr'] by blast
  ultimately show ?thesis
    using getLatestVersion_noClose [of r w url lm]
    by (simp add: parseCatalogResponse_trace)
qed

theorem C8_witness:
  "makeRequest sampleWorld ''hs'' 0 =
      (Inr \<lparr>StatusCode = 200, Body = Inr ''10.13.6''\<rparr>, [ClientDo (sampleRequest ''hs'')])
   \<and> StatusCode \<lparr>StatusCode = 200, Body = Inr ''10.13.6''\<rparr> = 200
   \<and> snd (getLatestVersion sampleWorld ''hs'' 0) =
       [ClientDo (sampleRequest ''hs'')] @ [ReadAll \<lparr>StatusCode = 200, Body = Inr ''10.13.6''\<rparr>]
   \<and> osVersionsMap (MakeTracker 300) OSTypeMac = Some emptyInfo
   \<and> makeRequest sampleWorld (catalogURL @ snd (hd MacCatalogs)) (LastModified emptyInfo) =
       (Inr \<lparr>StatusCode = 200, Body = Inr ''plist''\<rparr>,
        [ClientDo (sampleRequest (catalogURL @ snd (hd MacCatalogs)))])
   \<and> StatusCode \<lparr>StatusCode = 200, Body = Inr ''plist''\<rparr> = 200
   \<and> (\<exists>rest. snd (snd (updateOSVersionsMap sampleWorld (catalogURL @ snd (hd MacCatalogs))
                             (MakeTracker 300))) =
         [ClientDo (sampleRequest (catalogURL @ snd (hd MacCatalogs)))] @
         ReadAll \<lparr>StatusCode = 200, Body = Inr ''plist''\<rparr> # rest)"
proof -
  have a: "makeRequest sampleWorld ''hs'' 0 =
      (Inr \<lparr>StatusCode = 200, Body = Inr ''10.13.6''\<rparr>, [ClientDo (sampleRequest ''hs'')])"
    by (simp add: makeRequest_def sampleWorld_def sampleResponse_def sampleRequest_def
        catalogURL_def MacCatalogs_def)
  have b: "osVersionsMap (MakeTracker 300) OSTypeMac = Some emptyInfo"
    by (simp add: MakeTracker_def emptyInfo_def OSTypeMac_def OSTypeWindows_def OSTypeLinux_def)
  have c: "StatusCode \<lparr>StatusCode = 200, Body = Inr ''plist''\<rparr> = 200"
    by simp
  from C8_body_read_never_closed [of _ sampleWorld "''hs''" 0
      "\<lparr>StatusCode = 200, Body = Inr ''10.13.6''\<rparr>" "MakeTracker 300"
      "[ClientDo (sampleRequest ''hs'')]" emptyInfo "catalogURL @ snd (hd MacCatalogs)"
      "\<lparr>StatusCode = 200, Body = Inr ''plist''\<rparr>"
      "[ClientDo (sampleRequest (catalogURL @ snd (hd MacCatalogs)))]"]
    a b c sample_catalog_request [of "LastModified emptyInfo"]
  show ?thesis by simp
qed

theorem C8_counterexample:
  "StatusCode \<lparr>StatusCode = 200, Body = Inr ''10.13.6''\<rparr> = 200
   \<and> getLatestVersion sampleWorld ''hs'' 0 =
       (Inr ''10.13.6'',
        [ClientDo (sampleRequest ''hs''), ReadAll \<lparr>StatusCode = 200, Body = Inr ''10.13.6''\<rparr>])
   \<and> BodyClose \<lparr>StatusCode = 200, Body = Inr ''10.13.6''\<rparr>
       \<notin> set (snd (getLatestVersion sampleWorld ''hs'' 0))"
  by (simp add: sample_hs)

text \<open>
  C9, as amended. A version equal to the oldest boundary 10.11.0 is not below the
  threshold and is not strictly greater than any of the three boundaries, so its iteration
  leaves the store and the flag as they were.
\<close>

theorem C9_oldest_boundary_dropped:
  assumes "asDict (Some product) = Some productInfo"
    and "asDict (map_of productInfo ''Distributions'') = Some distributions"
    and "asString (map_of distributions ''English'') = Some englishDistribution"
    and "fst (getLatestVersion w englishDistribution lm) = Inr ver"
    and "NewVersion w ver = Inr (Version 10 11 0)"
  shows "\<not> LessThan (Version 10 11 0) elCapitanMajor
       \<and> \<not> GreaterThan (Version 10 11 0) highSierraMajor
       \<and> \<not> GreaterThan (Version 10 11 0) sierraMajor
       \<and> \<not> GreaterThan (Version 10 11 0) elCapitanMajor
       \<and> fst (processProduct w lm (key, product) st) = st"
proof -
  have "Version 10 11 0 \<le> elCapitanMajor"
    by (simp add: elCapitanMajor_def)
  from processProduct_not_classified [OF assms this]
  show ?thesis
    by (simp add: LessThan_def GreaterThan_def elCapitanMajor_def sierraMajor_def highSierraMajor_def)
qed

theorem C9_witness:
  "asDict (Some (sampleProduct ''ec0'')) =
     Some [(''ServerMetadataURL'', PString ''smd''), (''Distributions'', PDict [(''English'', PString ''ec0'')])]
   \<and> asDict (map_of [(''ServerMetadataURL'', PString ''smd''),
                   (''Distributions'', PDict [(''English'', PString ''ec0'')])] ''Distributions'') =
     Some [(''English'', PString ''ec0'')]
   \<and> asString (map_of [(''English'', PString ''ec0'')] ''English'') = Some ''ec0''
   \<and> fst (getLatestVersion sampleWorld ''ec0'' 0) = Inr ''10.11.0''
   \<and> NewVersion sampleWorld ''10.11.0'' = Inr (Version 10 11 0)
   \<and> fst (processProduct sampleWorld 0 (''031-63178'', sampleProduct ''ec0'') (emptyInfo, False)) =
       (emptyInfo, False)"
proof -
  have d: "fst (getLatestVersion sampleWorld ''ec0'' 0) = Inr ''10.11.0''"
    by (simp add: sample_ec0)
  have e: "NewVersion sampleWorld ''10.11.0'' = Inr (Version 10 11 0)"
    by (simp add: sampleWorld_fields sampleNewVersion_def)
  from C9_oldest_boundary_dropped [OF sampleProduct_parts d e, of "''031-63178''" "(emptyInfo, False)"]
    sampleProduct_parts [of "''ec0''"] d e
  show ?thesis by simp
qed

theorem C9_counterexample:
  "NewVersion sampleWorld ''10.13.0'' = Inr (Version 10 13 0)
   \<and> LatestVersions (fst (fst (processProduct sampleWorld 0 (''091-39211'', sampleProduct ''hs0'')
         (emptyInfo, False)))) versionNameSierra = Some (Version 10 13 0)
   \<and> snd (fst (processProduct sampleWorld 0 (''091-39211'', sampleProduct ''hs0'') (emptyInfo, False)))"
  by (simp add: processProduct_def sampleProduct_def sample_hs0 sampleWorld_fields sampleNewVersion_def
      LessThan_def GreaterThan_def elCapitanMajor_def sierraMajor_def highSierraMajor_def
      mergeLatest_def emptyInfo_def versionNameSierra_def)

text \<open>
  C10. \<open>getLatestVersion\<close> returns the empty string and no error both for a response
  with a status other than 200 and for a document that the title pattern does not match or
  whose title the discard pattern matches.
\<close>

theorem C10_same_result:
  assumes "makeRequest wA urlA lmA = (Inr respA, trA)"
    and "StatusCode respA \<noteq> 200"
    and "makeRequest wB urlB lmB = (Inr respB, trB)"
    and "StatusCode respB = 200"
    and "Body respB = Inr body"
    and "length (TitleRegex wB body) \<noteq> 4 \<or> 1 < length (DiscardRegex wB (TitleRegex wB body ! 3))"
  shows "fst (getLatestVersion wA urlA lmA) = Inr [] \<and> fst (getLatestVersion wB urlB lmB) = Inr []"
  using assms by (auto simp: getLatestVersion_def Let_def)

theorem C10_witness:
  "makeRequest sampleWorld ''nm'' 0 =
       (Inr \<lparr>StatusCode = 304, Body = Inr []\<rparr>, [ClientDo (sampleRequest ''nm'')])
   \<and> StatusCode \<lparr>StatusCode = 304, Body = Inr []\<rparr> \<noteq> 200
   \<and> makeRequest sampleWorld ''rec'' 0 =
       (Inr \<lparr>StatusCode = 200, Body = Inr ''Recovery''\<rparr>, [ClientDo (sampleRequest ''rec'')])
   \<and> StatusCode \<lparr>StatusCode = 200, Body = Inr ''Recovery''\<rparr> = 200
   \<and> Body \<lparr>StatusCode = 200, Body = Inr ''Recovery''\<rparr> = Inr ''Recovery''
   \<and> 1 < length (DiscardRegex sampleWorld (TitleRegex sampleWorld ''Recovery'' ! 3))
   \<and> fst (getLatestVersion sampleWorld ''nm'' 0) = Inr []
   \<and> fst (getLatestVersion sampleWorld ''rec'' 0) = Inr []"
proof -
  have c: "StatusCode \<lparr>StatusCode = 304, Body = Inr []\<rparr> \<noteq> 200"
    by simp
  have d: "StatusCode \<lparr>StatusCode = 200, Body = Inr ''Recovery''\<rparr> = 200"
    by simp
  have e: "Body \<lparr>StatusCode = 200, Body = Inr ''Recovery''\<rparr> = Inr ''Recovery''"
    by simp
  have f: "length (TitleRegex sampleWorld ''Recovery'') \<noteq> 4
        \<or> 1 < length (DiscardRegex sampleWorld (TitleRegex sampleWorld ''Recovery'' ! 3))"
    by (simp add: sampleWorld_def)
  have g: "1 < length (DiscardRegex sampleWorld (TitleRegex sampleWorld ''Recovery'' ! 3))"
    by (simp add: sampleWorld_def)
  from C10_same_result [OF sample_nm c sample_rec d e f, of 0 0] sample_nm [of 0] sample_rec [of 0] c d e g
  show ?thesis by simp
qed

end
